theory Spec2Isabelle
  imports Complex_Main
begin

section \<open>Errors\<close>

text \<open>
  The Python exceptions that the modelled code can raise.  \<open>Raised\<close> stands for any
  \<open>Exception\<close> coming out of an external collaborator (sensor simulators, Kafka client).
\<close>

datatype error = ZeroDivisionError | KeyError string | Raised string

section \<open>Range partitioning (city\_simulator.py)\<close>

text \<open>
  \<open>calculate_instance_edge_range(total_edges, instance_id, total_instances)\<close>.
  Python integers are unbounded (\<open>int\<close>); \<open>//\<close> and \<open>%\<close> are floor division and the
  matching modulus, which is what \<open>div\<close> and \<open>mod\<close> are on \<open>int\<close>, except that Python
  raises \<open>ZeroDivisionError\<close> for a zero divisor.  The function has no other failing branch.
\<close>

definition calculate_instance_edge_range :: "int \<Rightarrow> int \<Rightarrow> int \<Rightarrow> error + (int \<times> int)" where
  "calculate_instance_edge_range total_edges instance_id total_instances =
     (if total_instances = 0 then Inl ZeroDivisionError
      else
        let edges_per_instance = total_edges div total_instances;
            remainder = total_edges mod total_instances
        in if instance_id < remainder
           then (let start = instance_id * (edges_per_instance + 1);
                     end' = start + edges_per_instance
                 in Inr (start, end'))
           else (let start = instance_id * edges_per_instance + remainder;
                     end' = start + edges_per_instance - 1
                 in Inr (start, end')))"

text \<open>The indices of an inclusive range; a failed call assigns nothing.\<close>

definition instance_range :: "int \<Rightarrow> int \<Rightarrow> int \<Rightarrow> int set" where
  "instance_range total_edges instance_id total_instances =
     (case calculate_instance_edge_range total_edges instance_id total_instances of
        Inl _ \<Rightarrow> {}
      | Inr (start, end') \<Rightarrow> {start..end'})"

text \<open>The number of items of an inclusive range, where \<open>end < start\<close> means none.\<close>

definition range_size :: "int \<times> int \<Rightarrow> int" where
  "range_size r = (if snd r < fst r then 0 else snd r - fst r + 1)"

text \<open>
  The cumulative count of items handed to the instances before \<open>i\<close>: the first
  \<open>total_edges mod total_instances\<close> instances take one item more than the others.
\<close>

definition cumulative_start :: "int \<Rightarrow> int \<Rightarrow> int \<Rightarrow> int" where
  "cumulative_start T N i =
     (if i < T mod N then i * (T div N + 1) else i * (T div N) + T mod N)"

section \<open>Identifiers and district lookup (city\_simulator.py)\<close>

text \<open>
  \<open>generate_edge_id\<close> formats the index with \<open>05d\<close>: decimal digits, zero-filled to a
  width of five, the sign (if any) in front of the zeros and counted in the width.
\<close>

fun decimal :: "nat \<Rightarrow> string" where
  "decimal n =
     (if n < 10 then [char_of (48 + n)]
      else decimal (n div 10) @ [char_of (48 + n mod 10)])"

declare decimal.simps [simp del]

definition format_05d :: "int \<Rightarrow> string" where
  "format_05d i =
     (if i < 0
      then CHR ''-'' # replicate (4 - length (decimal (nat (- i)))) CHR ''0'' @ decimal (nat (- i))
      else replicate (5 - length (decimal (nat i))) CHR ''0'' @ decimal (nat i))"

definition generate_edge_id :: "int \<Rightarrow> string" where
  "generate_edge_id index = ''E-'' @ format_05d index"

definition generate_gateway_id :: "string \<Rightarrow> string" where
  "generate_gateway_id edge_id = ''GW-'' @ edge_id"

text \<open>
  A district is a dictionary read from the JSON configuration.  The code reads three of
  its keys, each of which may be missing; \<open>has_other_keys\<close> records whether the
  dictionary holds anything else (a dictionary without any key is falsy in Python).
  The values are taken to have the types the code expects.
\<close>

record edge_range_cfg =
  range_start :: "int option"
  range_end :: "int option"

record center_cfg =
  latitude :: "real option"
  longitude :: "real option"

record district =
  cfg_district_id :: "string option"
  edge_range :: "edge_range_cfg option"
  center :: "center_cfg option"
  has_other_keys :: bool

definition is_empty_dict :: "district \<Rightarrow> bool" where
  "is_empty_dict d \<longleftrightarrow>
     cfg_district_id d = None \<and> edge_range d = None \<and> center d = None \<and> \<not> has_other_keys d"

text \<open>
  The test of the loop body of \<open>find_district_for_edge\<close>:
  \<open>edge_range = district.get('edge_range', {})\<close>, \<open>start = edge_range.get('start', 0)\<close>,
  \<open>end = edge_range.get('end', 0)\<close>, \<open>start <= edge_index <= end\<close>.
\<close>

definition in_edge_range :: "district \<Rightarrow> int \<Rightarrow> bool" where
  "in_edge_range d edge_index =
     (let r = (case edge_range d of None \<Rightarrow> \<lparr>range_start = None, range_end = None\<rparr>
                                   | Some r \<Rightarrow> r);
          start = (case range_start r of None \<Rightarrow> 0 | Some s \<Rightarrow> s);
          end' = (case range_end r of None \<Rightarrow> 0 | Some e \<Rightarrow> e)
      in start \<le> edge_index \<and> edge_index \<le> end')"

text \<open>The \<open>for\<close> loop: \<open>Some d\<close> is the \<open>return district\<close> inside it, \<open>None\<close> its normal end.\<close>

fun scan_districts :: "district list \<Rightarrow> int \<Rightarrow> district option" where
  "scan_districts [] edge_index = None"
| "scan_districts (d # ds) edge_index =
     (if in_edge_range d edge_index then Some d else scan_districts ds edge_index)"

text \<open>The result \<open>None\<close> is Python's \<open>None\<close>, a returned value and not an exception.\<close>

definition find_district_for_edge :: "district list \<Rightarrow> int \<Rightarrow> district option" where
  "find_district_for_edge districts edge_index =
     (case scan_districts districts edge_index of
        Some d \<Rightarrow> Some d
      | None \<Rightarrow> (case districts of [] \<Rightarrow> None | d # _ \<Rightarrow> Some d))"

section \<open>Gateways (edge\_manager.py)\<close>

subsection \<open>Data\<close>

text \<open>
  \<open>collections.deque(maxlen=n)\<close>: \<open>append\<close> adds on the right and, when the length then
  exceeds \<open>maxlen\<close>, drops one item on the left.
\<close>

record 'a deque =
  maxlen :: nat
  items :: "'a list"

definition deque_append :: "'a deque \<Rightarrow> 'a \<Rightarrow> 'a deque" where
  "deque_append d x =
     (let xs = items d @ [x]
      in if maxlen d < length xs then d\<lparr>items := tl xs\<rparr> else d\<lparr>items := xs\<rparr>)"

definition deque_clear :: "'a deque \<Rightarrow> 'a deque" where
  "deque_clear d = d\<lparr>items := []\<rparr>"

text \<open>
  A sensor descriptor as \<open>generate_sensor_configs\<close> builds it, and a sensor reading, which
  the gateway passes on without looking into it.
\<close>

record sensor_cfg =
  sensor_id :: string
  sensor_location :: string
  offset_lat :: real
  offset_lon :: real

type_synonym reading = string

record payload =
  payload_gateway_id :: string
  payload_district_id :: string
  payload_location :: "real \<times> real"
  last_updated :: string
  metadata_name :: string
  metadata_version :: string
  metadata_firmware :: string
  sensor_counts :: "nat \<times> nat \<times> nat"
  sensors :: "reading list"

text \<open>
  What a gateway does to its collaborators, in order: a publish call that went through,
  a publish call that raised (the payload is then buffered), a skipped publish, an
  exception caught by the loop, and a call of \<open>stop_event.wait\<close> with its timeout and
  whether the event was set.
\<close>

datatype event =
    Sent payload
  | SendFailed payload
  | Skipped
  | LoopError error
  | Waited real bool

text \<open>
  The fields of an \<open>EdgeManager\<close>.  The last three are history variables: the number of
  publish calls made so far, the number of times the stop event was looked at (by
  \<open>is_set\<close> or \<open>wait\<close>), and the events so far.
\<close>

record edge_manager =
  district_id :: string
  gateway_id :: string
  gateway_name :: string
  location :: "real \<times> real"
  sensors_config :: "(string \<times> sensor_cfg list) list"
  sensors_edge_id :: string
  local_buffer :: "payload deque"
  sampling_interval :: real
  publish_calls :: nat
  polls :: nat
  trace :: "event list"

text \<open>The dictionary \<open>edge_config\<close> that \<open>_initialize_edges\<close> builds for a gateway.\<close>

record edge_config =
  config_gateway_id :: string
  config_edge_id :: string
  config_name :: string
  config_location :: "real \<times> real"
  config_sensors :: "(string \<times> sensor_cfg list) list"

text \<open>
  The collaborators of a gateway, which are not part of the modelled code:
  \<^item> \<open>generate_data ty n cfgs gateway edge\<close> is the result of the call
    \<open>generate_data(cfgs, gateway, edge)\<close> on the simulator of sensor type \<open>ty\<close> in
    iteration \<open>n\<close>: an exception, a falsy result (\<open>None\<close>), or a dictionary whose
    \<open>readings\<close> (the empty list when the key is missing) are given;
  \<open>utcnow n\<close> is the time stamp text in iteration \<open>n\<close>;
  \<^item> \<open>kafka_ok n data\<close> tells whether the \<open>n\<close>-th publish call of the gateway
    (\<open>send\<close> and \<open>future.get(timeout=10)\<close>) goes through; otherwise it raises;
  \<^item> \<open>stop_is_set n\<close> is the state of the shared stop event when the gateway looks at it
    for the \<open>n\<close>-th time.
\<close>

record env =
  generate_data :: "string \<Rightarrow> nat \<Rightarrow> sensor_cfg list \<Rightarrow> string \<Rightarrow> string
                      \<Rightarrow> error + reading list option"
  utcnow :: "nat \<Rightarrow> string"
  kafka_ok :: "nat \<Rightarrow> payload \<Rightarrow> bool"
  stop_is_set :: "nat \<Rightarrow> bool"

subsection \<open>Randomness\<close>

text \<open>
  Random numbers come from a stream \<open>rng\<close> of draws of \<open>random.random()\<close>, read at a
  position that every draw advances; \<open>random.uniform(a, b)\<close> is \<open>a + (b - a) * random()\<close>.
  Floating point numbers are modelled as reals.
\<close>

definition uniform :: "real \<Rightarrow> real \<Rightarrow> real \<Rightarrow> real" where
  "uniform a b r = a + (b - a) * r"

subsection \<open>Construction\<close>

definition dict_get :: "(string \<times> 'v) list \<Rightarrow> string \<Rightarrow> 'v \<Rightarrow> 'v" where
  "dict_get d k dflt = (case map_of d k of None \<Rightarrow> dflt | Some v \<Rightarrow> v)"

text \<open>\<open>str.capitalize\<close> on ASCII text.\<close>

definition ascii_upper :: "char \<Rightarrow> char" where
  "ascii_upper c =
     (let n = of_char c :: nat in if 97 \<le> n \<and> n \<le> 122 then char_of (n - 32) else c)"

definition ascii_lower :: "char \<Rightarrow> char" where
  "ascii_lower c =
     (let n = of_char c :: nat in if 65 \<le> n \<and> n \<le> 90 then char_of (n + 32) else c)"

definition capitalize :: "string \<Rightarrow> string" where
  "capitalize s = (case s of [] \<Rightarrow> [] | c # cs \<Rightarrow> ascii_upper c # map ascii_lower cs)"

text \<open>
  The inner loop of \<open>generate_sensor_configs\<close> for one sensor type: sensor \<open>i\<close> of
  \<open>range(count)\<close> takes two draws, for its latitude and longitude offsets.  (The rounding
  of the offsets to six decimals is not modelled, and \<open>chr(97 + i)\<close> is a single
  character for the first letters only.)
\<close>

definition sensors_of_type ::
    "(nat \<Rightarrow> real) \<Rightarrow> nat \<Rightarrow> string \<Rightarrow> string \<Rightarrow> int \<Rightarrow> sensor_cfg list" where
  "sensors_of_type rng pos edge_id sensor_type count =
     map (\<lambda>i. \<lparr>sensor_id = sensor_type @ ''-'' @ edge_id @ ''-'' @ [char_of (97 + i)],
               sensor_location = capitalize sensor_type @ '' sensor '' @ decimal (i + 1),
               offset_lat = uniform (- 0.0002) 0.0002 (rng (pos + 2 * i)),
               offset_lon = uniform (- 0.0002) 0.0002 (rng (pos + 2 * i + 1))\<rparr>)
         [0..<nat count]"

fun generate_sensor_configs ::
    "(nat \<Rightarrow> real) \<Rightarrow> nat \<Rightarrow> string \<Rightarrow> (string \<times> int) list
       \<Rightarrow> (string \<times> sensor_cfg list) list \<times> nat" where
  "generate_sensor_configs rng pos edge_id [] = ([], pos)"
| "generate_sensor_configs rng pos edge_id ((sensor_type, count) # rest) =
     (let cfgs = sensors_of_type rng pos edge_id sensor_type count;
          (more, pos') = generate_sensor_configs rng (pos + 2 * nat count) edge_id rest
      in ((sensor_type, cfgs) # more, pos'))"

text \<open>
  \<open>EdgeManager.__init__\<close>: the buffer is \<open>deque(maxlen=1000)\<close>, and the sampling interval
  is the one draw \<open>random.uniform(2.5, 4.5)\<close>.  The result carries the next position of
  the random stream.
\<close>

definition EdgeManager_init ::
    "(nat \<Rightarrow> real) \<Rightarrow> nat \<Rightarrow> string \<Rightarrow> edge_config \<Rightarrow> edge_manager \<times> nat" where
  "EdgeManager_init rng pos district edge_cfg =
     (\<lparr>district_id = district,
       gateway_id = config_gateway_id edge_cfg,
       gateway_name = config_name edge_cfg,
       location = config_location edge_cfg,
       sensors_config = config_sensors edge_cfg,
       sensors_edge_id = config_edge_id edge_cfg,
       local_buffer = \<lparr>maxlen = 1000, items = []\<rparr>,
       sampling_interval = uniform 2.5 4.5 (rng pos),
       publish_calls = 0,
       polls = 0,
       trace = []\<rparr>,
      pos + 1)"

text \<open>
  \<open>CitySimulator._initialize_edges\<close>, as a loop over the indices of
  \<open>range(edge_start, edge_end + 1)\<close> that threads the list of gateways built so far and
  the position in the random stream.  \<open>if not district: continue\<close> skips an index whose
  lookup gave \<open>None\<close> or an empty dictionary; \<open>district['district_id']\<close> and the
  coordinates of the center raise \<open>KeyError\<close> when missing.
\<close>

definition default_center :: center_cfg where
  "default_center = \<lparr>latitude = Some 42.35, longitude = Some 13.40\<rparr>"

fun initialize_edges_loop ::
    "(nat \<Rightarrow> real) \<Rightarrow> district list \<Rightarrow> (string \<times> int) list \<Rightarrow> int list
       \<Rightarrow> edge_manager list \<times> nat \<Rightarrow> error + (edge_manager list \<times> nat)" where
  "initialize_edges_loop rng districts sensors_per_gateway [] acc = Inr acc"
| "initialize_edges_loop rng districts sensors_per_gateway (edge_index # rest)
       (edge_managers, pos) =
     (let edge_id = generate_edge_id edge_index;
          gw_id = generate_gateway_id edge_id
      in case find_district_for_edge districts edge_index of
           None \<Rightarrow>
             initialize_edges_loop rng districts sensors_per_gateway rest (edge_managers, pos)
         | Some d \<Rightarrow>
             if is_empty_dict d
             then initialize_edges_loop rng districts sensors_per_gateway rest
                    (edge_managers, pos)
             else (case cfg_district_id d of
                 None \<Rightarrow> Inl (KeyError ''district_id'')
               | Some did \<Rightarrow>
                   let district_center = (case center d of None \<Rightarrow> default_center
                                                         | Some c \<Rightarrow> c)
                   in (case latitude district_center of
                       None \<Rightarrow> Inl (KeyError ''latitude'')
                     | Some lat \<Rightarrow>
                        (case longitude district_center of
                           None \<Rightarrow> Inl (KeyError ''longitude'')
                         | Some lon \<Rightarrow>
                             let loc = (lat + uniform (- 0.02) 0.02 (rng pos),
                                        lon + uniform (- 0.02) 0.02 (rng (pos + 1)));
                                 (sens, pos2) = generate_sensor_configs rng (pos + 2) edge_id
                                                  sensors_per_gateway;
                                 edge_cfg = \<lparr>config_gateway_id = gw_id,
                                             config_edge_id = edge_id,
                                             config_name = ''Gateway at '' @ edge_id,
                                             config_location = loc,
                                             config_sensors = sens\<rparr>;
                                 (edge_mgr, pos3) = EdgeManager_init rng pos2 did edge_cfg
                             in initialize_edges_loop rng districts sensors_per_gateway rest
                                  (edge_managers @ [edge_mgr], pos3)))))"

definition initialize_edges ::
    "(nat \<Rightarrow> real) \<Rightarrow> nat \<Rightarrow> district list \<Rightarrow> (string \<times> int) list \<Rightarrow> int \<Rightarrow> int
       \<Rightarrow> error + (edge_manager list \<times> nat)" where
  "initialize_edges rng pos districts sensors_per_gateway edge_start edge_end =
     initialize_edges_loop rng districts sensors_per_gateway [edge_start..edge_end] ([], pos)"

subsection \<open>Payload generation\<close>

definition GATEWAY_VERSION :: string where
  "GATEWAY_VERSION = ''1.0.0''"

definition GATEWAY_FIRMWARE :: string where
  "GATEWAY_FIRMWARE = ''EdgeOS 2.1.3''"

definition generate_sensor_data ::
    "env \<Rightarrow> nat \<Rightarrow> edge_manager \<Rightarrow> string \<Rightarrow> error + reading list option" where
  "generate_sensor_data e iteration self sensor_type =
     (if sensor_type = ''speed''
      then generate_data e ''speed'' iteration (dict_get (sensors_config self) ''speed'' [])
             (gateway_id self) (sensors_edge_id self)
      else if sensor_type = ''weather''
      then generate_data e ''weather'' iteration (dict_get (sensors_config self) ''weather'' [])
             (gateway_id self) (sensors_edge_id self)
      else if sensor_type = ''camera''
      then generate_data e ''camera'' iteration (dict_get (sensors_config self) ''camera'' [])
             (gateway_id self) (sensors_edge_id self)
      else Inr None)"

text \<open>\<open>if data: sensors.extend(data.get('readings', []))\<close>: what one sensor type adds.\<close>

definition readings_of :: "reading list option \<Rightarrow> reading list" where
  "readings_of data = (case data of None \<Rightarrow> [] | Some rs \<Rightarrow> rs)"

text \<open>
  \<open>generate_gateway_payload\<close> in iteration \<open>iteration\<close>; an exception of a simulator
  leaves the method at once.
\<close>

definition generate_gateway_payload :: "env \<Rightarrow> nat \<Rightarrow> edge_manager \<Rightarrow> error + payload" where
  "generate_gateway_payload e iteration self =
     (case generate_sensor_data e iteration self ''speed'' of
        Inl x \<Rightarrow> Inl x
      | Inr speed_data \<Rightarrow>
     (case generate_sensor_data e iteration self ''weather'' of
        Inl x \<Rightarrow> Inl x
      | Inr weather_data \<Rightarrow>
     (case generate_sensor_data e iteration self ''camera'' of
        Inl x \<Rightarrow> Inl x
      | Inr camera_data \<Rightarrow>
          Inr \<lparr>payload_gateway_id = gateway_id self,
               payload_district_id = district_id self,
               payload_location = location self,
               last_updated = utcnow e iteration @ ''Z'',
               metadata_name = gateway_name self,
               metadata_version = GATEWAY_VERSION,
               metadata_firmware = GATEWAY_FIRMWARE,
               sensor_counts =
                 (length (dict_get (sensors_config self) ''speed'' []),
                  length (dict_get (sensors_config self) ''weather'' []),
                  length (dict_get (sensors_config self) ''camera'' [])),
               sensors = readings_of speed_data @ readings_of weather_data
                           @ readings_of camera_data\<rparr>)))"

subsection \<open>Publishing and buffering\<close>

text \<open>
  \<open>send_to_kafka\<close>: the whole body is inside \<open>try\<close>; on any exception the handler logs,
  appends the payload to the buffer and returns \<open>False\<close>.
\<close>

definition send_to_kafka :: "env \<Rightarrow> payload \<Rightarrow> edge_manager \<Rightarrow> bool \<times> edge_manager" where
  "send_to_kafka e data self =
     (if kafka_ok e (publish_calls self) data
      then (True, self\<lparr>publish_calls := publish_calls self + 1,
                       trace := trace self @ [Sent data]\<rparr>)
      else (False, self\<lparr>publish_calls := publish_calls self + 1,
                        trace := trace self @ [SendFailed data],
                        local_buffer := deque_append (local_buffer self) data\<rparr>))"

text \<open>The \<open>for\<close> loop of \<open>retry_buffered_messages\<close>, with its \<open>break\<close>.\<close>

fun retry_each :: "env \<Rightarrow> payload list \<Rightarrow> edge_manager \<Rightarrow> edge_manager" where
  "retry_each e [] self = self"
| "retry_each e (message # rest) self =
     (case send_to_kafka e message self of
        (True, self') \<Rightarrow> retry_each e rest self'
      | (False, self') \<Rightarrow> self')"

definition retry_buffered_messages :: "env \<Rightarrow> edge_manager \<Rightarrow> edge_manager" where
  "retry_buffered_messages e self =
     (if items (local_buffer self) = [] then self
      else
        let messages_to_retry = items (local_buffer self);
            self1 = self\<lparr>local_buffer := deque_clear (local_buffer self)\<rparr>
        in retry_each e messages_to_retry self1)"

text \<open>Consecutive calls of \<open>send_to_kafka\<close>, one for each payload of a list.\<close>

fun send_all :: "env \<Rightarrow> payload list \<Rightarrow> edge_manager \<Rightarrow> edge_manager" where
  "send_all e [] self = self"
| "send_all e (data # rest) self = send_all e rest (snd (send_to_kafka e data self))"

subsection \<open>The gateway loop\<close>

text \<open>\<open>self.stop_event.wait(timeout=t)\<close>; the loop ignores its result.\<close>

definition stop_event_wait :: "env \<Rightarrow> real \<Rightarrow> edge_manager \<Rightarrow> edge_manager" where
  "stop_event_wait e t self =
     self\<lparr>trace := trace self @ [Waited t (stop_is_set e (polls self))],
          polls := polls self + 1\<rparr>"

text \<open>\<open>if payload.get('sensors'): self.send_to_kafka(payload)\<close>, else only a log line.\<close>

definition publish_step :: "env \<Rightarrow> payload \<Rightarrow> edge_manager \<Rightarrow> edge_manager" where
  "publish_step e p self =
     (if sensors p \<noteq> [] then snd (send_to_kafka e p self)
      else self\<lparr>trace := trace self @ [Skipped]\<rparr>)"

text \<open>\<open>if iteration % 10 == 0: self.retry_buffered_messages()\<close>.\<close>

definition periodic_retry :: "env \<Rightarrow> nat \<Rightarrow> edge_manager \<Rightarrow> edge_manager" where
  "periodic_retry e iteration self =
     (if iteration mod 10 = 0 then retry_buffered_messages e self else self)"

text \<open>
  The \<open>try\<close> block of the loop, after \<open>iteration += 1\<close> has given \<open>iteration\<close>: either it
  runs to its end, the wait included, or payload generation raises.
\<close>

definition iteration_try :: "env \<Rightarrow> nat \<Rightarrow> edge_manager \<Rightarrow> error + edge_manager" where
  "iteration_try e iteration self =
     (case generate_gateway_payload e iteration self of
        Inl x \<Rightarrow> Inl x
      | Inr p \<Rightarrow>
          Inr (stop_event_wait e (sampling_interval self)
                 (periodic_retry e iteration (publish_step e p self))))"

text \<open>The \<open>try\<close> block with its handler \<open>except Exception\<close>: log, then wait.\<close>

definition loop_body :: "env \<Rightarrow> nat \<Rightarrow> edge_manager \<Rightarrow> edge_manager" where
  "loop_body e iteration self =
     (case iteration_try e iteration self of
        Inr self' \<Rightarrow> self'
      | Inl x \<Rightarrow>
          stop_event_wait e (sampling_interval self)
            (self\<lparr>trace := trace self @ [LoopError x]\<rparr>))"

text \<open>
  \<open>run\<close>: \<open>while not self.stop_event.is_set()\<close> around the body.  The loop may go on for
  ever, so \<open>run_loop\<close> takes the number of loop tests it may make and is \<open>None\<close> when they
  do not suffice; a result \<open>Some (iteration, self)\<close> is the normal return of \<open>run\<close>.
  \<open>run_prefix\<close> is the state after at most \<open>k\<close> rounds of the same loop.
\<close>

fun run_loop :: "nat \<Rightarrow> env \<Rightarrow> nat \<Rightarrow> edge_manager \<Rightarrow> (nat \<times> edge_manager) option" where
  "run_loop 0 e iteration self = None"
| "run_loop (Suc fuel) e iteration self =
     (if stop_is_set e (polls self)
      then Some (iteration, self\<lparr>polls := polls self + 1\<rparr>)
      else run_loop fuel e (iteration + 1)
             (loop_body e (iteration + 1) (self\<lparr>polls := polls self + 1\<rparr>)))"

fun run_prefix :: "nat \<Rightarrow> env \<Rightarrow> nat \<Rightarrow> edge_manager \<Rightarrow> nat \<times> edge_manager" where
  "run_prefix 0 e iteration self = (iteration, self)"
| "run_prefix (Suc k) e iteration self =
     (if stop_is_set e (polls self)
      then (iteration, self\<lparr>polls := polls self + 1\<rparr>)
      else run_prefix k e (iteration + 1)
             (loop_body e (iteration + 1) (self\<lparr>polls := polls self + 1\<rparr>)))"

definition run :: "nat \<Rightarrow> env \<Rightarrow> edge_manager \<Rightarrow> (nat \<times> edge_manager) option" where
  "run fuel e self = run_loop fuel e 0 self"

section \<open>Notions used in the properties\<close>

text \<open>The buffer has capacity \<open>C\<close> and holds no more than that.\<close>

definition buffer_ok :: "nat \<Rightarrow> edge_manager \<Rightarrow> bool" where
  "buffer_ok C s \<longleftrightarrow> maxlen (local_buffer s) = C \<and> length (items (local_buffer s)) \<le> C"

text \<open>The fields of a gateway that are set in the constructor and read afterwards.\<close>

definition same_gateway :: "edge_manager \<Rightarrow> edge_manager \<Rightarrow> bool" where
  "same_gateway s s' \<longleftrightarrow>
     district_id s' = district_id s \<and> gateway_id s' = gateway_id s
     \<and> gateway_name s' = gateway_name s \<and> location s' = location s
     \<and> sensors_config s' = sensors_config s \<and> sensors_edge_id s' = sensors_edge_id s
     \<and> sampling_interval s' = sampling_interval s
     \<and> maxlen (local_buffer s') = maxlen (local_buffer s)"

text \<open>The timeouts of the waits of a trace, in order.\<close>

fun wait_timeouts :: "event list \<Rightarrow> real list" where
  "wait_timeouts [] = []"
| "wait_timeouts (Waited t b # evs) = t # wait_timeouts evs"
| "wait_timeouts (ev # evs) = wait_timeouts evs"

text \<open>The two methods that write the buffer, in any order.\<close>

datatype buffer_op = SendToKafka payload | RetryBuffered

fun apply_ops :: "env \<Rightarrow> buffer_op list \<Rightarrow> edge_manager \<Rightarrow> edge_manager" where
  "apply_ops e [] self = self"
| "apply_ops e (SendToKafka data # ops) self = apply_ops e ops (snd (send_to_kafka e data self))"
| "apply_ops e (RetryBuffered # ops) self = apply_ops e ops (retry_buffered_messages e self)"

section \<open>Concrete inputs\<close>

definition district_a :: district where
  "district_a = \<lparr>cfg_district_id = Some ''D1'',
                  edge_range = Some \<lparr>range_start = Some 0, range_end = Some 4\<rparr>,
                  center = None, has_other_keys = True\<rparr>"

definition district_b :: district where
  "district_b = \<lparr>cfg_district_id = Some ''D2'',
                  edge_range = Some \<lparr>range_start = Some 5, range_end = Some 9\<rparr>,
                  center = None, has_other_keys = True\<rparr>"

definition district_c :: district where
  "district_c = \<lparr>cfg_district_id = Some ''D3'',
                  edge_range = Some \<lparr>range_start = Some 5, range_end = Some 9\<rparr>,
                  center = None, has_other_keys = True\<rparr>"

text \<open>
  A gateway with one speed sensor, the payload it generates in iteration \<open>n\<close>, and
  simulators that return one reading for each configured sensor.
\<close>

definition example_config :: edge_config where
  "example_config =
     \<lparr>config_gateway_id = ''GW-E-00001'', config_edge_id = ''E-00001'',
      config_name = ''Gateway at E-00001'', config_location = (42, 13),
      config_sensors = [(''speed'', [\<lparr>sensor_id = ''speed-E-00001-a'',
                                       sensor_location = ''Speed sensor 1'',
                                       offset_lat = 0, offset_lon = 0\<rparr>])]\<rparr>"

definition half_stream :: "nat \<Rightarrow> real" where
  "half_stream n = 1 / 2"

definition example_gateway :: edge_manager where
  "example_gateway = fst (EdgeManager_init half_stream 0 ''D1'' example_config)"

definition idle_gateway :: edge_manager where
  "idle_gateway =
     fst (EdgeManager_init half_stream 0 ''D1'' (example_config\<lparr>config_sensors := []\<rparr>))"

definition example_payload :: "nat \<Rightarrow> payload" where
  "example_payload n =
     \<lparr>payload_gateway_id = ''GW-E-00001'', payload_district_id = ''D1'',
      payload_location = (42, 13), last_updated = decimal n @ ''Z'',
      metadata_name = ''Gateway at E-00001'', metadata_version = ''1.0.0'',
      metadata_firmware = ''EdgeOS 2.1.3'', sensor_counts = (1, 0, 0),
      sensors = [''speed-E-00001-a'']\<rparr>"

definition echo_simulators ::
    "string \<Rightarrow> nat \<Rightarrow> sensor_cfg list \<Rightarrow> string \<Rightarrow> string \<Rightarrow> error + reading list option" where
  "echo_simulators ty n cfgs gw ed = Inr (Some (map sensor_id cfgs))"

text \<open>Kafka is down and nobody stops the gateway.\<close>

definition env_kafka_down :: env where
  "env_kafka_down =
     \<lparr>generate_data = echo_simulators, utcnow = decimal,
      kafka_ok = (\<lambda>n data. False), stop_is_set = (\<lambda>n. False)\<rparr>"

text \<open>Only the fourth publish call goes through.\<close>

definition env_fourth_call_ok :: env where
  "env_fourth_call_ok =
     \<lparr>generate_data = echo_simulators, utcnow = decimal,
      kafka_ok = (\<lambda>n data. n = 3), stop_is_set = (\<lambda>n. False)\<rparr>"

text \<open>Kafka works and the stop event is set from the fourth look on.\<close>

definition env_stop_at_3 :: env where
  "env_stop_at_3 =
     \<lparr>generate_data = echo_simulators, utcnow = decimal,
      kafka_ok = (\<lambda>n data. True), stop_is_set = (\<lambda>n. 3 \<le> n)\<rparr>"

text \<open>The simulators raise in the second iteration.\<close>

definition env_fault_in_2 :: env where
  "env_fault_in_2 =
     \<lparr>generate_data = (\<lambda>ty n cfgs gw ed. if n = 2 then Inl (Raised ''sensor fault'')
                                          else echo_simulators ty n cfgs gw ed),
      utcnow = decimal,
      kafka_ok = (\<lambda>n data. True), stop_is_set = (\<lambda>n. False)\<rparr>"

text \<open>Whether an event is a failed publish call.\<close>

fun is_send_failed :: "event \<Rightarrow> bool" where
  "is_send_failed (SendFailed data) = True"
| "is_send_failed ev = False"

text \<open>A gateway like the example, with a buffer of capacity 2.\<close>

definition small_gateway :: edge_manager where
  "small_gateway = example_gateway\<lparr>local_buffer := \<lparr>maxlen = 2, items = []\<rparr>\<rparr>"

text \<open>The gateway has no sensor of any of the three types.\<close>

definition no_sensors_configured :: "edge_manager \<Rightarrow> bool" where
  "no_sensors_configured s \<longleftrightarrow>
     dict_get (sensors_config s) ''speed'' [] = []
     \<and> dict_get (sensors_config s) ''weather'' [] = []
     \<and> dict_get (sensors_config s) ''camera'' [] = []"


section \<open>Properties of the range partitioning\<close>

lemma calc_start_size:
  "N \<noteq> 0 \<Longrightarrow> calculate_instance_edge_range T i N =
     Inr (cumulative_start T N i,
          cumulative_start T N i + (if i < T mod N then T div N else T div N - 1))"
  by (simp add: calculate_instance_edge_range_def cumulative_start_def Let_def)

lemma cumulative_start_step:
  "cumulative_start T N (i + 1) =
     cumulative_start T N i + (if i < T mod N then T div N + 1 else T div N)"
  by (auto simp: cumulative_start_def algebra_simps)

lemma calc_start_next:
  "N \<noteq> 0 \<Longrightarrow> calculate_instance_edge_range T i N =
     Inr (cumulative_start T N i, cumulative_start T N (i + 1) - 1)"
  by (simp add: calc_start_size cumulative_start_step)

lemma cumulative_start_0: "0 < N \<Longrightarrow> cumulative_start T N 0 = 0"
proof -
  assume "0 < N"
  then have "0 \<le> T mod N" by simp
  then show ?thesis by (auto simp: cumulative_start_def)
qed

lemma cumulative_start_total: "0 < N \<Longrightarrow> cumulative_start T N N = T"
proof -
  assume "0 < N"
  then have "T mod N < N" by simp
  moreover have "N * (T div N) + T mod N = T" by simp
  ultimately show ?thesis by (simp add: cumulative_start_def mult.commute)
qed

lemma cumulative_start_le_next:
  "0 \<le> T \<Longrightarrow> 0 < N \<Longrightarrow> cumulative_start T N i \<le> cumulative_start T N (i + 1)"
  by (simp add: cumulative_start_step pos_imp_zdiv_nonneg_iff)

lemma cumulative_start_mono:
  "0 \<le> T \<Longrightarrow> 0 < N \<Longrightarrow> i \<le> j \<Longrightarrow> cumulative_start T N i \<le> cumulative_start T N j"
proof (induction "nat (j - i)" arbitrary: j)
  case 0
  then show ?case by simp
next
  case (Suc k)
  then have "k = nat ((j - 1) - i)" "i \<le> j - 1" by linarith+
  with Suc have "cumulative_start T N i \<le> cumulative_start T N (j - 1)" by blast
  also have "\<dots> \<le> cumulative_start T N j"
    using cumulative_start_le_next [OF Suc.prems(1,2), of "j - 1"] by simp
  finally show ?case .
qed

lemma instance_range_half_open:
  "N \<noteq> 0 \<Longrightarrow>
     instance_range T i N = {cumulative_start T N i ..< cumulative_start T N (i + 1)}"
  by (auto simp: instance_range_def calc_start_next)

lemma instance_ranges_prefix:
  assumes "0 \<le> T" "0 < N"
  shows "int k \<le> N \<Longrightarrow>
           (\<Union>i\<in>{0..<int k}. instance_range T i N) = {0..<cumulative_start T N (int k)}"
proof (induction k)
  case 0
  then show ?case using assms by (simp add: cumulative_start_0)
next
  case (Suc k)
  have split: "{0..<int (Suc k)} = insert (int k) {0..<int k}" by auto
  have le: "cumulative_start T N (int k) \<le> cumulative_start T N (int k + 1)"
    using assms by (rule cumulative_start_le_next)
  have ge: "0 \<le> cumulative_start T N (int k)"
    using cumulative_start_mono [OF assms, of 0 "int k"] assms
    by (simp add: cumulative_start_0)
  from Suc have IH:
    "(\<Union>i\<in>{0..<int k}. instance_range T i N) = {0..<cumulative_start T N (int k)}"
    by simp
  have "(\<Union>i\<in>{0..<int (Suc k)}. instance_range T i N)
        = {cumulative_start T N (int k) ..< cumulative_start T N (int k + 1)}
          \<union> {0..<cumulative_start T N (int k)}"
  proof -
    have "(\<Union>i\<in>{0..<int (Suc k)}. instance_range T i N)
          = instance_range T (int k) N \<union> (\<Union>i\<in>{0..<int k}. instance_range T i N)"
      by (simp only: split UN_insert)
    also have "instance_range T (int k) N
          = {cumulative_start T N (int k) ..< cumulative_start T N (int k + 1)}"
      using assms by (simp add: instance_range_half_open)
    finally show ?thesis by (simp only: IH)
  qed
  also have "\<dots> = {0..<cumulative_start T N (int k + 1)}" using le ge by auto
  finally show ?case by (simp add: add.commute)
qed

lemma instance_ranges_cover:
  assumes "0 \<le> T" "0 < N"
  shows "(\<Union>i\<in>{0..<N}. instance_range T i N) = {0..<T}"
  using instance_ranges_prefix [OF assms, of "nat N"] assms
  by (simp add: cumulative_start_total)

lemma instance_ranges_disjoint:
  assumes "0 \<le> T" "0 < N" "i < j"
  shows "instance_range T i N \<inter> instance_range T j N = {}"
proof -
  have "cumulative_start T N (i + 1) \<le> cumulative_start T N j"
    using assms by (intro cumulative_start_mono) auto
  then show ?thesis using assms by (auto simp: instance_range_half_open)
qed

lemma range_size_calc:
  assumes "0 \<le> T" "0 < N" "calculate_instance_edge_range T i N = Inr (s, e)"
  shows "e - s + 1 = (if i < T mod N then T div N + 1 else T div N)"
    and "range_size (s, e) = e - s + 1"
proof -
  have b: "0 \<le> T div N" using assms by (simp add: pos_imp_zdiv_nonneg_iff)
  from assms show 1: "e - s + 1 = (if i < T mod N then T div N + 1 else T div N)"
    by (auto simp: calc_start_size)
  with b show "range_size (s, e) = e - s + 1"
    by (auto simp: range_size_def split: if_splits)
qed

text \<open>
  Claim C1.  For \<open>total_items \<ge> 0\<close> and \<open>total_instances \<ge> 1\<close>: every instance id in
  \<open>[0, total_instances)\<close> gets an inclusive range of \<open>end - start + 1\<close> items, which is
  \<open>base + 1\<close> for the first \<open>remainder\<close> instances and \<open>base\<close> for the others (an empty
  range has \<open>end = start - 1\<close>); the ranges of two different instances are disjoint;
  instance 0 starts at 0 and every instance starts right after the end of the one before
  it; the union of all ranges is \<open>[0, total_items)\<close>; and any two sizes differ by at
  most 1.
\<close>

theorem partition_exact_cover:
  assumes "0 \<le> total_items" and "1 \<le> total_instances"
  shows "(\<forall>i. 0 \<le> i \<and> i < total_instances \<longrightarrow>
            (\<exists>s e. calculate_instance_edge_range total_items i total_instances = Inr (s, e)
                 \<and> e - s + 1 = (if i < total_items mod total_instances
                                 then total_items div total_instances + 1
                                 else total_items div total_instances)
                 \<and> range_size (s, e) = e - s + 1))
       \<and> (\<forall>i j. 0 \<le> i \<and> i < j \<and> j < total_instances \<longrightarrow>
            instance_range total_items i total_instances
              \<inter> instance_range total_items j total_instances = {})
       \<and> (\<exists>e. calculate_instance_edge_range total_items 0 total_instances = Inr (0, e))
       \<and> (\<forall>i. 0 \<le> i \<and> i + 1 < total_instances \<longrightarrow>
            (\<exists>s e e'. calculate_instance_edge_range total_items i total_instances = Inr (s, e)
                 \<and> calculate_instance_edge_range total_items (i + 1) total_instances
                     = Inr (e + 1, e')))
       \<and> (\<Union>i\<in>{0..<total_instances}. instance_range total_items i total_instances)
            = {0..<total_items}
       \<and> (\<forall>i j s e s' e'.
            0 \<le> i \<and> i < total_instances \<and> 0 \<le> j \<and> j < total_instances
            \<and> calculate_instance_edge_range total_items i total_instances = Inr (s, e)
            \<and> calculate_instance_edge_range total_items j total_instances = Inr (s', e')
            \<longrightarrow> \<bar>range_size (s, e) - range_size (s', e')\<bar> \<le> 1)"
proof -
  let ?T = total_items and ?N = total_instances
  from assms have N: "0 < ?N" "?N \<noteq> 0" by simp_all
  have sizes: "\<forall>i. 0 \<le> i \<and> i < ?N \<longrightarrow>
            (\<exists>s e. calculate_instance_edge_range ?T i ?N = Inr (s, e)
                 \<and> e - s + 1 = (if i < ?T mod ?N then ?T div ?N + 1 else ?T div ?N)
                 \<and> range_size (s, e) = e - s + 1)"
  proof (intro allI impI)
    fix i
    obtain s e where c: "calculate_instance_edge_range ?T i ?N = Inr (s, e)"
      using N by (simp add: calc_start_size)
    with range_size_calc [OF assms(1) N(1) c]
    show "\<exists>s e. calculate_instance_edge_range ?T i ?N = Inr (s, e)
                 \<and> e - s + 1 = (if i < ?T mod ?N then ?T div ?N + 1 else ?T div ?N)
                 \<and> range_size (s, e) = e - s + 1"
      by blast
  qed
  have disj: "\<forall>i j. 0 \<le> i \<and> i < j \<and> j < ?N \<longrightarrow>
            instance_range ?T i ?N \<inter> instance_range ?T j ?N = {}"
    using instance_ranges_disjoint [OF assms(1) N(1)] by blast
  have first: "\<exists>e. calculate_instance_edge_range ?T 0 ?N = Inr (0, e)"
    using N by (simp add: calc_start_size cumulative_start_0)
  have nogap: "\<forall>i. 0 \<le> i \<and> i + 1 < ?N \<longrightarrow>
            (\<exists>s e e'. calculate_instance_edge_range ?T i ?N = Inr (s, e)
                 \<and> calculate_instance_edge_range ?T (i + 1) ?N = Inr (e + 1, e'))"
    using N by (simp add: calc_start_next)
  have cover: "(\<Union>i\<in>{0..<?N}. instance_range ?T i ?N) = {0..<?T}"
    using instance_ranges_cover [OF assms(1) N(1)] .
  have bal: "\<forall>i j s e s' e'.
            0 \<le> i \<and> i < ?N \<and> 0 \<le> j \<and> j < ?N
            \<and> calculate_instance_edge_range ?T i ?N = Inr (s, e)
            \<and> calculate_instance_edge_range ?T j ?N = Inr (s', e')
            \<longrightarrow> \<bar>range_size (s, e) - range_size (s', e')\<bar> \<le> 1"
  proof (intro allI impI)
    fix i j s e s' e'
    assume h: "0 \<le> i \<and> i < ?N \<and> 0 \<le> j \<and> j < ?N
            \<and> calculate_instance_edge_range ?T i ?N = Inr (s, e)
            \<and> calculate_instance_edge_range ?T j ?N = Inr (s', e')"
    then have a: "calculate_instance_edge_range ?T i ?N = Inr (s, e)"
      and b: "calculate_instance_edge_range ?T j ?N = Inr (s', e')" by simp_all
    show "\<bar>range_size (s, e) - range_size (s', e')\<bar> \<le> 1"
      using range_size_calc [OF assms(1) N(1) a] range_size_calc [OF assms(1) N(1) b]
      by (simp split: if_splits)
  qed
  from sizes disj first nogap cover bal show ?thesis by blast
qed

text \<open>
  The example of the specification: 3459 items over 4 instances give the sizes
  865, 865, 865, 864.
\<close>

theorem partition_exact_cover_witness:
  "(0::int) \<le> 3459 \<and> (1::int) \<le> 4
   \<and> calculate_instance_edge_range 3459 0 4 = Inr (0, 864)
   \<and> calculate_instance_edge_range 3459 1 4 = Inr (865, 1729)
   \<and> calculate_instance_edge_range 3459 2 4 = Inr (1730, 2594)
   \<and> calculate_instance_edge_range 3459 3 4 = Inr (2595, 3458)
   \<and> (\<Union>i\<in>{0..<4}. instance_range 3459 i 4) = {0..<3459}"
  using partition_exact_cover [of 3459 4]
  by (simp add: calculate_instance_edge_range_def)

text \<open>
  Claim C3 says that the partition function rejects \<open>total_instances \<le> 0\<close> with a
  configuration error and an instance id outside \<open>[0, total_instances)\<close> with an
  invalid-instance error.  The function checks neither: an instance id of 5 among 2
  instances and an instance count of \<open>-1\<close> both return a range.
\<close>

theorem partition_no_validation_counterexample:
  "calculate_instance_edge_range 10 5 2 = Inr (25, 29)
   \<and> calculate_instance_edge_range 10 0 (- 1) = Inr (0, - 11)"
  by (simp add: calculate_instance_edge_range_def)

text \<open>
  Claim C3, as the code has it.  The only failure of the partition function is the
  division by zero for \<open>total_instances = 0\<close>, which produces no range; for every other
  instance count, negative ones included, and for every instance id, inside
  \<open>[0, total_instances)\<close> or not, it returns the range of the same formula.
\<close>

theorem partition_only_fails_on_zero:
  "calculate_instance_edge_range total_items instance_id 0 = Inl ZeroDivisionError
   \<and> (total_instances \<noteq> 0 \<longrightarrow>
        (\<exists>s e. calculate_instance_edge_range total_items instance_id total_instances
                  = Inr (s, e)
              \<and> s = cumulative_start total_items total_instances instance_id
              \<and> e - s + 1 = (if instance_id < total_items mod total_instances
                              then total_items div total_instances + 1
                              else total_items div total_instances)))"
  by (simp add: calc_start_size) (simp add: calculate_instance_edge_range_def)

theorem partition_only_fails_on_zero_witness:
  "(- 1 :: int) \<noteq> 0
   \<and> calculate_instance_edge_range 7 9 0 = Inl ZeroDivisionError
   \<and> (\<exists>s e. calculate_instance_edge_range 7 9 (- 1) = Inr (s, e)
          \<and> s = cumulative_start 7 (- 1) 9
          \<and> e - s + 1 = (if 9 < 7 mod (- 1 :: int) then 7 div (- 1) + 1 else 7 div (- 1)))"
  using partition_only_fails_on_zero [of 7 9 "- 1"] by simp


section \<open>Properties of the district lookup and the initialisation\<close>

lemma scan_districts_first:
  "\<forall>x\<in>set pre. \<not> in_edge_range x i \<Longrightarrow> in_edge_range d i \<Longrightarrow>
     scan_districts (pre @ d # post) i = Some d"
  by (induction pre) auto

lemma scan_districts_none:
  "\<forall>x\<in>set ds. \<not> in_edge_range x i \<Longrightarrow> scan_districts ds i = None"
  by (induction ds) auto

text \<open>
  Claim C7.  The lookup returns the first district, in the order of the list, whose
  inclusive edge range holds the index; when no district of a non-empty list holds
  it, the lookup returns the first district of the list.  The result is a returned value
  in both cases, never an exception.
\<close>

theorem find_district_first_match_or_fallback:
  "(\<forall>pre d post.
      districts = pre @ d # post \<and> (\<forall>x\<in>set pre. \<not> in_edge_range x edge_index)
        \<and> in_edge_range d edge_index
      \<longrightarrow> find_district_for_edge districts edge_index = Some d)
   \<and> (\<forall>d rest.
      districts = d # rest \<and> (\<forall>x\<in>set districts. \<not> in_edge_range x edge_index)
      \<longrightarrow> find_district_for_edge districts edge_index = Some d)"
proof (intro conjI allI impI)
  fix pre d post
  assume "districts = pre @ d # post \<and> (\<forall>x\<in>set pre. \<not> in_edge_range x edge_index)
        \<and> in_edge_range d edge_index"
  then show "find_district_for_edge districts edge_index = Some d"
    by (simp add: find_district_for_edge_def scan_districts_first)
next
  fix d rest
  assume h: "districts = d # rest \<and> (\<forall>x\<in>set districts. \<not> in_edge_range x edge_index)"
  then have "scan_districts districts edge_index = None"
    by (intro scan_districts_none) simp
  with h show "find_district_for_edge districts edge_index = Some d"
    by (simp add: find_district_for_edge_def)
qed


theorem find_district_witness:
  "\<not> in_edge_range district_a 7 \<and> in_edge_range district_b 7
   \<and> find_district_for_edge [district_a, district_b, district_c] 7 = Some district_b
   \<and> \<not> in_edge_range district_a 70 \<and> \<not> in_edge_range district_b 70
   \<and> find_district_for_edge [district_a, district_b] 70 = Some district_a"
proof -
  have a: "\<not> in_edge_range district_a 7" "in_edge_range district_b 7" "\<not> in_edge_range district_a 70" "\<not> in_edge_range district_b 70"
    by (simp_all add: in_edge_range_def district_a_def district_b_def district_c_def)
  have "find_district_for_edge [district_a, district_b, district_c] 7 = Some district_b"
    using find_district_first_match_or_fallback [of "[district_a, district_b, district_c]" 7] a
    by (elim conjE allE [where x = "[district_a]"]) (erule allE [where x = district_b], auto)
  moreover have "find_district_for_edge [district_a, district_b] 70 = Some district_a"
    using find_district_first_match_or_fallback [of "[district_a, district_b]" 70] a by simp
  ultimately show ?thesis using a by simp
qed

lemma initialize_edges_loop_no_districts:
  "initialize_edges_loop rng [] spg xs acc = Inr acc"
  by (induction xs arbitrary: acc) (auto simp: find_district_for_edge_def)

text \<open>
  Claim C10.  With an empty district list the lookup returns \<open>None\<close> for every index,
  and the initialisation of the gateways then skips every index of the range: it ends
  normally with no gateway, and without a draw from the random stream.
\<close>

theorem no_districts_no_gateways:
  "find_district_for_edge [] edge_index = None
   \<and> initialize_edges rng pos [] sensors_per_gateway edge_start edge_end = Inr ([], pos)"
  by (simp add: find_district_for_edge_def initialize_edges_def initialize_edges_loop_no_districts)

section \<open>Properties of the gateway\<close>

lemma wait_timeouts_append: "wait_timeouts (xs @ ys) = wait_timeouts xs @ wait_timeouts ys"
  by (induction xs rule: wait_timeouts.induct) auto

lemma same_gateway_refl: "same_gateway s s"
  by (simp add: same_gateway_def)

lemma same_gateway_trans: "same_gateway a b \<Longrightarrow> same_gateway b c \<Longrightarrow> same_gateway a c"
  by (simp add: same_gateway_def)

lemma deque_append_maxlen: "maxlen (deque_append d x) = maxlen d"
  by (simp add: deque_append_def Let_def)

lemma deque_append_length:
  "length (items d) \<le> maxlen d \<Longrightarrow> length (items (deque_append d x)) \<le> maxlen d"
  by (simp add: deque_append_def Let_def)

lemma deque_append_items:
  assumes "length (items d) \<le> maxlen d"
  shows "items (deque_append d x) = drop (length (items d @ [x]) - maxlen d) (items d @ [x])"
proof (cases "maxlen d < length (items d @ [x])")
  case True
  with assms have eq: "length (items d @ [x]) - maxlen d = Suc 0" by simp
  have a: "drop (Suc 0) (items d @ [x]) = tl (items d @ [x])"
    by (simp only: drop_Suc drop_0)
  have "items (deque_append d x) = tl (items d @ [x])"
    using True by (simp add: deque_append_def Let_def)
  then show ?thesis by (simp only: eq a)
next
  case False
  then show ?thesis by (simp add: deque_append_def Let_def)
qed

lemma send_to_kafka_frame:
  "same_gateway s (snd (send_to_kafka e m s))"
  "polls (snd (send_to_kafka e m s)) = polls s"
  "wait_timeouts (trace (snd (send_to_kafka e m s))) = wait_timeouts (trace s)"
  "publish_calls (snd (send_to_kafka e m s)) = publish_calls s + 1"
  by (simp_all add: send_to_kafka_def same_gateway_def deque_append_maxlen wait_timeouts_append)

lemma send_to_kafka_buffer_ok:
  "buffer_ok C s \<Longrightarrow> buffer_ok C (snd (send_to_kafka e m s))"
  using deque_append_length [of "local_buffer s" m]
  by (auto simp: send_to_kafka_def buffer_ok_def deque_append_maxlen)

lemma retry_each_frame:
  "same_gateway s (retry_each e ms s)
   \<and> polls (retry_each e ms s) = polls s
   \<and> wait_timeouts (trace (retry_each e ms s)) = wait_timeouts (trace s)"
proof (induction ms arbitrary: s)
  case Nil
  then show ?case by (simp add: same_gateway_refl)
next
  case (Cons m ms)
  show ?case
  proof (cases "kafka_ok e (publish_calls s) m")
    case True
    let ?s = "snd (send_to_kafka e m s)"
    from True have "retry_each e (m # ms) s = retry_each e ms ?s"
      by (simp add: send_to_kafka_def)
    with Cons.IH [where s = ?s] send_to_kafka_frame [where s = s and e = e and m = m] show ?thesis
      by (auto intro: same_gateway_trans)
  next
    case False
    then have "retry_each e (m # ms) s = snd (send_to_kafka e m s)"
      by (simp add: send_to_kafka_def)
    with send_to_kafka_frame [where s = s and e = e and m = m] show ?thesis by simp
  qed
qed

lemma retry_each_buffer_ok:
  "buffer_ok C s \<Longrightarrow> buffer_ok C (retry_each e ms s)"
proof (induction ms arbitrary: s)
  case Nil
  then show ?case by simp
next
  case (Cons m ms)
  show ?case
  proof (cases "kafka_ok e (publish_calls s) m")
    case True
    then have "retry_each e (m # ms) s = retry_each e ms (snd (send_to_kafka e m s))"
      by (simp add: send_to_kafka_def)
    with Cons show ?thesis by (simp add: send_to_kafka_buffer_ok)
  next
    case False
    then have "retry_each e (m # ms) s = snd (send_to_kafka e m s)"
      by (simp add: send_to_kafka_def)
    with Cons.prems show ?thesis by (simp add: send_to_kafka_buffer_ok)
  qed
qed

lemma retry_buffered_frame:
  "same_gateway s (retry_buffered_messages e s)
   \<and> polls (retry_buffered_messages e s) = polls s
   \<and> wait_timeouts (trace (retry_buffered_messages e s)) = wait_timeouts (trace s)"
proof (cases "items (local_buffer s) = []")
  case True
  then show ?thesis by (simp add: retry_buffered_messages_def same_gateway_refl)
next
  case False
  let ?s1 = "s\<lparr>local_buffer := deque_clear (local_buffer s)\<rparr>"
  have "same_gateway s ?s1" by (simp add: same_gateway_def deque_clear_def)
  with retry_each_frame [where s = ?s1 and e = e and ms = "items (local_buffer s)"] False show ?thesis
    by (auto simp: retry_buffered_messages_def Let_def intro: same_gateway_trans)
qed

lemma retry_buffered_buffer_ok:
  "buffer_ok C s \<Longrightarrow> buffer_ok C (retry_buffered_messages e s)"
proof (cases "items (local_buffer s) = []")
  case True
  assume "buffer_ok C s"
  with True show ?thesis by (simp add: retry_buffered_messages_def)
next
  case False
  assume "buffer_ok C s"
  then have "buffer_ok C (s\<lparr>local_buffer := deque_clear (local_buffer s)\<rparr>)"
    by (simp add: buffer_ok_def deque_clear_def)
  with False show ?thesis
    by (simp add: retry_buffered_messages_def Let_def retry_each_buffer_ok)
qed

lemma retry_buffered_empty:
  "items (local_buffer s) = [] \<Longrightarrow> retry_buffered_messages e s = s"
  by (simp add: retry_buffered_messages_def)

lemma publish_step_frame:
  "same_gateway s (publish_step e p s)
   \<and> polls (publish_step e p s) = polls s
   \<and> wait_timeouts (trace (publish_step e p s)) = wait_timeouts (trace s)"
  using send_to_kafka_frame [where s = s and e = e and m = p]
  by (simp add: publish_step_def same_gateway_def wait_timeouts_append)

lemma publish_step_buffer_ok:
  "buffer_ok C s \<Longrightarrow> buffer_ok C (publish_step e p s)"
  by (simp add: publish_step_def send_to_kafka_buffer_ok) (simp add: buffer_ok_def)

lemma periodic_retry_frame:
  "same_gateway s (periodic_retry e it s)
   \<and> polls (periodic_retry e it s) = polls s
   \<and> wait_timeouts (trace (periodic_retry e it s)) = wait_timeouts (trace s)"
  using retry_buffered_frame [where s = s and e = e]
  by (simp add: periodic_retry_def same_gateway_refl)

lemma periodic_retry_buffer_ok:
  "buffer_ok C s \<Longrightarrow> buffer_ok C (periodic_retry e it s)"
  by (simp add: periodic_retry_def retry_buffered_buffer_ok)

lemma stop_event_wait_frame:
  "same_gateway s (stop_event_wait e t s)"
  "polls (stop_event_wait e t s) = polls s + 1"
  "wait_timeouts (trace (stop_event_wait e t s)) = wait_timeouts (trace s) @ [t]"
  "local_buffer (stop_event_wait e t s) = local_buffer s"
  "publish_calls (stop_event_wait e t s) = publish_calls s"
  by (simp_all add: stop_event_wait_def same_gateway_def wait_timeouts_append)

lemma loop_body_frame:
  "same_gateway s (loop_body e it s)
   \<and> polls (loop_body e it s) = polls s + 1
   \<and> wait_timeouts (trace (loop_body e it s)) = wait_timeouts (trace s) @ [sampling_interval s]"
proof (cases "generate_gateway_payload e it s")
  case (Inl x)
  then show ?thesis
    by (simp add: loop_body_def iteration_try_def stop_event_wait_def same_gateway_def
        wait_timeouts_append)
next
  case (Inr p)
  let ?a = "publish_step e p s"
  let ?b = "periodic_retry e it ?a"
  let ?c = "stop_event_wait e (sampling_interval s) ?b"
  from Inr have eq: "loop_body e it s = ?c"
    by (simp add: loop_body_def iteration_try_def)
  have "same_gateway s ?c"
    using publish_step_frame [where s = s and e = e and p = p] periodic_retry_frame [where s = ?a and e = e and it = it]
      stop_event_wait_frame(1) [where s = ?b and e = e and t = "sampling_interval s"]
    by (blast intro: same_gateway_trans)
  moreover have "polls ?c = polls s + 1"
    using publish_step_frame [where s = s and e = e and p = p] periodic_retry_frame [where s = ?a and e = e and it = it]
    by (simp add: stop_event_wait_frame)
  moreover have "wait_timeouts (trace ?c) = wait_timeouts (trace s) @ [sampling_interval s]"
    using publish_step_frame [where s = s and e = e and p = p] periodic_retry_frame [where s = ?a and e = e and it = it]
    by (simp add: stop_event_wait_frame)
  ultimately show ?thesis by (simp only: eq)
qed

lemma loop_body_buffer_ok:
  "buffer_ok C s \<Longrightarrow> buffer_ok C (loop_body e it s)"
proof (cases "generate_gateway_payload e it s")
  case (Inl x)
  assume "buffer_ok C s"
  with Inl show ?thesis
    by (simp add: loop_body_def iteration_try_def stop_event_wait_def buffer_ok_def)
next
  case (Inr p)
  assume "buffer_ok C s"
  then have "buffer_ok C (periodic_retry e it (publish_step e p s))"
    by (intro periodic_retry_buffer_ok publish_step_buffer_ok)
  with Inr show ?thesis
    by (simp add: loop_body_def iteration_try_def buffer_ok_def stop_event_wait_frame)
qed

lemma run_prefix_frame:
  "same_gateway s (snd (run_prefix k e it s))
   \<and> wait_timeouts (trace (snd (run_prefix k e it s)))
       = wait_timeouts (trace s) @ replicate (fst (run_prefix k e it s) - it) (sampling_interval s)
   \<and> it \<le> fst (run_prefix k e it s)"
proof (induction k arbitrary: it s)
  case 0
  then show ?case by (simp add: same_gateway_refl)
next
  case (Suc k)
  show ?case
  proof (cases "stop_is_set e (polls s)")
    case True
    then show ?thesis by (simp add: same_gateway_def)
  next
    case False
    let ?s0 = "s\<lparr>polls := polls s + 1\<rparr>"
    let ?s1 = "loop_body e (it + 1) ?s0"
    from False have eq: "run_prefix (Suc k) e it s = run_prefix k e (it + 1) ?s1" by simp
    have f: "same_gateway ?s0 ?s1" "wait_timeouts (trace ?s1) = wait_timeouts (trace s) @ [sampling_interval s]"
      using loop_body_frame [where s = ?s0 and e = e and it = "it + 1"] by simp_all
    have sg: "same_gateway s ?s1"
      using f(1) by (simp add: same_gateway_def)
    then have si: "sampling_interval ?s1 = sampling_interval s" by (simp add: same_gateway_def)
    from Suc.IH [where it = "it + 1" and s = ?s1]
    have ih: "same_gateway ?s1 (snd (run_prefix k e (it + 1) ?s1))"
      "wait_timeouts (trace (snd (run_prefix k e (it + 1) ?s1)))
         = wait_timeouts (trace ?s1) @ replicate (fst (run_prefix k e (it + 1) ?s1) - (it + 1)) (sampling_interval ?s1)"
      "it + 1 \<le> fst (run_prefix k e (it + 1) ?s1)"
      by simp_all
    have "replicate (fst (run_prefix k e (it + 1) ?s1) - it) (sampling_interval s)
        = sampling_interval s # replicate (fst (run_prefix k e (it + 1) ?s1) - (it + 1)) (sampling_interval s)"
      using ih(3) by (cases "fst (run_prefix k e (it + 1) ?s1) - it") simp_all
    with ih sg si f(2) show ?thesis
      unfolding eq by (auto intro: same_gateway_trans)
  qed
qed

lemma run_prefix_buffer_ok:
  "buffer_ok C s \<Longrightarrow> buffer_ok C (snd (run_prefix k e it s))"
proof (induction k arbitrary: it s)
  case 0
  then show ?case by simp
next
  case (Suc k)
  have "buffer_ok C (s\<lparr>polls := polls s + 1\<rparr>)"
    using Suc.prems by (simp add: buffer_ok_def)
  then have "buffer_ok C (loop_body e (it + 1) (s\<lparr>polls := polls s + 1\<rparr>))"
    by (rule loop_body_buffer_ok)
  from Suc.IH [OF this] show ?case
    using Suc.prems by (simp add: buffer_ok_def)
qed

lemma apply_ops_buffer_ok:
  "buffer_ok C s \<Longrightarrow> buffer_ok C (apply_ops e ops s)"
  by (induction e ops s rule: apply_ops.induct)
     (simp_all add: send_to_kafka_buffer_ok retry_buffered_buffer_ok)

lemma run_loop_is_prefix:
  "run_loop fuel e it s = Some r \<Longrightarrow> r = run_prefix fuel e it s"
  by (induction fuel arbitrary: it s) (auto split: if_splits)

lemma drop_keep_last:
  "drop (length (drop (length ys - M) ys @ zs) - M) (drop (length ys - M) ys @ zs)
     = drop (length (ys @ zs) - M) (ys @ zs)"
proof (cases "length ys \<le> M")
  case True
  then show ?thesis by simp
next
  case False
  then have "length (drop (length ys - M) ys) = M" by simp
  then have "drop (length (drop (length ys - M) ys @ zs) - M) (drop (length ys - M) ys @ zs)
      = drop (length zs) (drop (length ys - M) ys) @ drop (length zs - M) zs"
    by simp
  also have "\<dots> = drop (length ys + length zs - M) ys @ drop (length zs - M) zs"
    using False by (simp add: add.commute)
  also have "\<dots> = drop (length (ys @ zs) - M) (ys @ zs)"
    using False by simp
  finally show ?thesis .
qed

lemma send_all_failures:
  "length (items (local_buffer s)) \<le> maxlen (local_buffer s) \<Longrightarrow>
   (\<forall>j<length ps. \<not> kafka_ok e (publish_calls s + j) (ps ! j)) \<Longrightarrow>
     items (local_buffer (send_all e ps s))
       = drop (length (items (local_buffer s) @ ps) - maxlen (local_buffer s))
           (items (local_buffer s) @ ps)
     \<and> maxlen (local_buffer (send_all e ps s)) = maxlen (local_buffer s)"
proof (induction ps arbitrary: s)
  case Nil
  then show ?case by simp
next
  case (Cons p ps)
  let ?M = "maxlen (local_buffer s)"
  let ?xs = "items (local_buffer s)"
  let ?s = "snd (send_to_kafka e p s)"
  from Cons.prems(2) have fail: "\<not> kafka_ok e (publish_calls s) p" by fastforce
  then have b: "local_buffer ?s = deque_append (local_buffer s) p" "publish_calls ?s = publish_calls s + 1"
    by (simp_all add: send_to_kafka_def)
  have it: "items (local_buffer ?s) = drop (length (?xs @ [p]) - ?M) (?xs @ [p])"
    and ml: "maxlen (local_buffer ?s) = ?M"
    using Cons.prems(1) by (simp_all add: b deque_append_items deque_append_maxlen)
  have len: "length (items (local_buffer ?s)) \<le> maxlen (local_buffer ?s)"
    using Cons.prems(1) by (simp add: b deque_append_length deque_append_maxlen)
  have rest: "\<forall>j<length ps. \<not> kafka_ok e (publish_calls ?s + j) (ps ! j)"
  proof (intro allI impI)
    fix j assume "j < length ps"
    then have "\<not> kafka_ok e (publish_calls s + Suc j) ((p # ps) ! Suc j)"
      using Cons.prems(2) by (metis Suc_less_eq length_Cons)
    then show "\<not> kafka_ok e (publish_calls ?s + j) (ps ! j)" by (simp add: b)
  qed
  from Cons.IH [OF len rest]
  have m2: "maxlen (local_buffer (send_all e (p # ps) s)) = ?M"
    by (simp add: ml)
  from Cons.IH [OF len rest]
  have "items (local_buffer (send_all e (p # ps) s))
          = drop (length (items (local_buffer ?s) @ ps) - ?M) (items (local_buffer ?s) @ ps)"
    by (simp add: ml)
  also have "drop (length (items (local_buffer ?s) @ ps) - ?M) (items (local_buffer ?s) @ ps)
      = drop (length (?xs @ p # ps) - ?M) (?xs @ p # ps)"
    unfolding it using drop_keep_last [of "?xs @ [p]" ?M ps] by simp
  finally show ?case using m2 by simp
qed

lemma send_to_kafka_ok:
  "kafka_ok e (publish_calls s) m \<Longrightarrow>
     send_to_kafka e m s = (True, s\<lparr>publish_calls := publish_calls s + 1, trace := trace s @ [Sent m]\<rparr>)"
  by (simp add: send_to_kafka_def)

lemma send_to_kafka_fail:
  "\<not> kafka_ok e (publish_calls s) m \<Longrightarrow>
     send_to_kafka e m s = (False, s\<lparr>publish_calls := publish_calls s + 1, trace := trace s @ [SendFailed m],
         local_buffer := deque_append (local_buffer s) m\<rparr>)"
  by (simp add: send_to_kafka_def)

lemma retry_each_all_ok:
  "(\<forall>j<length ms. kafka_ok e (publish_calls s + j) (ms ! j)) \<Longrightarrow>
     retry_each e ms s = s\<lparr>publish_calls := publish_calls s + length ms, trace := trace s @ map Sent ms\<rparr>"
proof (induction ms arbitrary: s)
  case Nil
  then show ?case by simp
next
  case (Cons m ms)
  from Cons.prems have ok: "kafka_ok e (publish_calls s) m" by fastforce
  let ?s = "s\<lparr>publish_calls := publish_calls s + 1, trace := trace s @ [Sent m]\<rparr>"
  have "\<forall>j<length ms. kafka_ok e (publish_calls ?s + j) (ms ! j)"
  proof (intro allI impI)
    fix j assume "j < length ms"
    then have "kafka_ok e (publish_calls s + Suc j) ((m # ms) ! Suc j)"
      using Cons.prems by (metis Suc_less_eq length_Cons)
    then show "kafka_ok e (publish_calls ?s + j) (ms ! j)" by simp
  qed
  from Cons.IH [OF this] ok show ?case
    by (simp add: send_to_kafka_ok)
qed

lemma retry_each_first_failure:
  "(\<forall>j<length pre. kafka_ok e (publish_calls s + j) (pre ! j)) \<Longrightarrow>
   \<not> kafka_ok e (publish_calls s + length pre) m \<Longrightarrow>
     retry_each e (pre @ m # post) s =
       s\<lparr>publish_calls := publish_calls s + length pre + 1,
         trace := trace s @ map Sent pre @ [SendFailed m],
         local_buffer := deque_append (local_buffer s) m\<rparr>"
proof (induction pre arbitrary: s)
  case Nil
  then show ?case by (simp add: send_to_kafka_fail)
next
  case (Cons x pre)
  from Cons.prems(1) have ok: "kafka_ok e (publish_calls s) x" by fastforce
  let ?s = "s\<lparr>publish_calls := publish_calls s + 1, trace := trace s @ [Sent x]\<rparr>"
  have a: "\<forall>j<length pre. kafka_ok e (publish_calls ?s + j) (pre ! j)"
  proof (intro allI impI)
    fix j assume "j < length pre"
    then have "kafka_ok e (publish_calls s + Suc j) ((x # pre) ! Suc j)"
      using Cons.prems(1) by (metis Suc_less_eq length_Cons)
    then show "kafka_ok e (publish_calls ?s + j) (pre ! j)" by simp
  qed
  have b: "\<not> kafka_ok e (publish_calls ?s + length pre) m"
    using Cons.prems(2) by simp
  from Cons.IH [OF a b] ok show ?case
    by (simp add: send_to_kafka_ok)
qed

lemma deque_append_empty:
  "0 < maxlen d \<Longrightarrow> deque_append (deque_clear d) x = d\<lparr>items := [x]\<rparr>"
  by (simp add: deque_append_def deque_clear_def)

lemma retry_buffered_all_ok:
  assumes "\<forall>j<length (items (local_buffer s)). kafka_ok e (publish_calls s + j) (items (local_buffer s) ! j)"
  shows "retry_buffered_messages e s =
           s\<lparr>local_buffer := (local_buffer s)\<lparr>items := []\<rparr>,
             publish_calls := publish_calls s + length (items (local_buffer s)),
             trace := trace s @ map Sent (items (local_buffer s))\<rparr>"
proof (cases "items (local_buffer s) = []")
  case True
  then show ?thesis by (simp add: retry_buffered_messages_def)
next
  case False
  let ?s1 = "s\<lparr>local_buffer := deque_clear (local_buffer s)\<rparr>"
  have "\<forall>j<length (items (local_buffer s)). kafka_ok e (publish_calls ?s1 + j) (items (local_buffer s) ! j)"
    using assms by simp
  from retry_each_all_ok [OF this] False show ?thesis
    by (simp add: retry_buffered_messages_def deque_clear_def)
qed

lemma retry_buffered_first_failure:
  assumes "items (local_buffer s) = pre @ m # post"
    and "\<forall>j<length pre. kafka_ok e (publish_calls s + j) (pre ! j)"
    and "\<not> kafka_ok e (publish_calls s + length pre) m"
    and "0 < maxlen (local_buffer s)"
  shows "retry_buffered_messages e s =
           s\<lparr>local_buffer := (local_buffer s)\<lparr>items := [m]\<rparr>,
             publish_calls := publish_calls s + length pre + 1,
             trace := trace s @ map Sent pre @ [SendFailed m]\<rparr>"
proof -
  let ?s1 = "s\<lparr>local_buffer := deque_clear (local_buffer s)\<rparr>"
  have a: "\<forall>j<length pre. kafka_ok e (publish_calls ?s1 + j) (pre ! j)"
    using assms(2) by simp
  have b: "\<not> kafka_ok e (publish_calls ?s1 + length pre) m"
    using assms(3) by simp
  from retry_each_first_failure [OF a b, of post] assms(1,4) show ?thesis
    by (simp add: retry_buffered_messages_def deque_append_empty)
qed

text \<open>
  Claim C2.  In an iteration whose number is a multiple of 10 the drain step is
  \<open>retry_buffered_messages\<close>, and an iteration that generated its payload runs it
  between the publish step and the wait.  The drain empties the buffer and replays the
  batch in its order: when every publish call goes through, all are sent and the buffer
  stays empty; when the batch is \<open>pre @ m # post\<close> and the call for \<open>m\<close> is the first
  to fail, exactly \<open>pre\<close> is sent, the buffer afterwards holds \<open>m\<close> alone, and \<open>post\<close>
  is neither sent nor kept.
\<close>

theorem drain_every_tenth_iteration:
  assumes "iteration mod 10 = 0" and "0 < maxlen (local_buffer s)"
  shows "periodic_retry e iteration s = retry_buffered_messages e s
    \<and> (\<forall>self p. generate_gateway_payload e iteration self = Inr p \<longrightarrow>
          loop_body e iteration self =
            stop_event_wait e (sampling_interval self)
              (retry_buffered_messages e (publish_step e p self)))
    \<and> ((\<forall>j<length (items (local_buffer s)).
            kafka_ok e (publish_calls s + j) (items (local_buffer s) ! j)) \<longrightarrow>
          retry_buffered_messages e s =
            s\<lparr>local_buffer := (local_buffer s)\<lparr>items := []\<rparr>,
              publish_calls := publish_calls s + length (items (local_buffer s)),
              trace := trace s @ map Sent (items (local_buffer s))\<rparr>)
    \<and> (\<forall>pre m post.
          items (local_buffer s) = pre @ m # post
          \<and> (\<forall>j<length pre. kafka_ok e (publish_calls s + j) (pre ! j))
          \<and> \<not> kafka_ok e (publish_calls s + length pre) m \<longrightarrow>
          retry_buffered_messages e s =
            s\<lparr>local_buffer := (local_buffer s)\<lparr>items := [m]\<rparr>,
              publish_calls := publish_calls s + length pre + 1,
              trace := trace s @ map Sent pre @ [SendFailed m]\<rparr>)"
proof (intro conjI allI impI)
  show "periodic_retry e iteration s = retry_buffered_messages e s"
    using assms(1) by (simp add: periodic_retry_def)
next
  fix self p
  assume "generate_gateway_payload e iteration self = Inr p"
  then show "loop_body e iteration self =
            stop_event_wait e (sampling_interval self)
              (retry_buffered_messages e (publish_step e p self))"
    using assms(1) by (simp add: loop_body_def iteration_try_def periodic_retry_def)
next
  assume "\<forall>j<length (items (local_buffer s)).
            kafka_ok e (publish_calls s + j) (items (local_buffer s) ! j)"
  then show "retry_buffered_messages e s =
            s\<lparr>local_buffer := (local_buffer s)\<lparr>items := []\<rparr>,
              publish_calls := publish_calls s + length (items (local_buffer s)),
              trace := trace s @ map Sent (items (local_buffer s))\<rparr>"
    by (rule retry_buffered_all_ok)
next
  fix pre m post
  assume h: "items (local_buffer s) = pre @ m # post
          \<and> (\<forall>j<length pre. kafka_ok e (publish_calls s + j) (pre ! j))
          \<and> \<not> kafka_ok e (publish_calls s + length pre) m"
  then show "retry_buffered_messages e s =
            s\<lparr>local_buffer := (local_buffer s)\<lparr>items := [m]\<rparr>,
              publish_calls := publish_calls s + length pre + 1,
              trace := trace s @ map Sent pre @ [SendFailed m]\<rparr>"
    using retry_buffered_first_failure [of s pre m post e] assms(2) by blast
qed

lemma generate_sensor_data_same:
  "same_gateway s s' \<Longrightarrow> generate_sensor_data e it s' ty = generate_sensor_data e it s ty"
  by (simp add: generate_sensor_data_def same_gateway_def)

lemma generate_gateway_payload_same:
  "same_gateway s s' \<Longrightarrow> generate_gateway_payload e it s' = generate_gateway_payload e it s"
  by (simp add: generate_gateway_payload_def generate_sensor_data_same split: sum.splits)
     (simp add: same_gateway_def)

lemma loop_body_fault:
  "generate_gateway_payload e it s = Inl x \<Longrightarrow>
     loop_body e it s =
       s\<lparr>trace := trace s @ [LoopError x, Waited (sampling_interval s) (stop_is_set e (polls s))],
         polls := polls s + 1\<rparr>"
  by (simp add: loop_body_def iteration_try_def stop_event_wait_def)

lemma loop_body_last:
  "last (trace (loop_body e it s)) = Waited (sampling_interval s) (stop_is_set e (polls s))"
proof (cases "generate_gateway_payload e it s")
  case (Inl x)
  then show ?thesis by (simp add: loop_body_fault)
next
  case (Inr p)
  have "polls (periodic_retry e it (publish_step e p s)) = polls s"
    using publish_step_frame [where s = s and e = e and p = p]
      periodic_retry_frame [where s = "publish_step e p s" and e = e and it = it] by simp
  with Inr show ?thesis
    by (simp add: loop_body_def iteration_try_def stop_event_wait_def)
qed

lemma run_loop_stops:
  assumes mono: "\<forall>n. stop_is_set e n \<longleftrightarrow> p \<le> n"
  shows "polls s \<le> p + 1 \<Longrightarrow> (p + 1 - polls s) div 2 < fuel \<Longrightarrow>
    \<exists>s'. run_loop fuel e it s = Some (it + (p + 1 - polls s) div 2, s')
        \<and> p < polls s' \<and> polls s' \<le> p + 2 \<and> same_gateway s s'
        \<and> (polls s \<le> p \<and> odd (p - polls s) \<longrightarrow>
              last (trace s') = Waited (sampling_interval s) True)"
proof (induction fuel arbitrary: it s)
  case 0
  then show ?case by simp
next
  case (Suc fuel)
  show ?case
  proof (cases "stop_is_set e (polls s)")
    case True
    with mono have "p \<le> polls s" by simp
    with Suc.prems have "(p + 1 - polls s) div 2 = 0" "\<not> (polls s \<le> p \<and> odd (p - polls s))"
      by auto
    with True \<open>p \<le> polls s\<close> Suc.prems(1) show ?thesis
      by (simp add: same_gateway_def)
  next
    case False
    with mono have lt: "polls s < p" by simp
    let ?s0 = "s\<lparr>polls := polls s + 1\<rparr>"
    let ?s1 = "loop_body e (it + 1) ?s0"
    have f: "same_gateway ?s0 ?s1" "polls ?s1 = polls s + 2"
      using loop_body_frame [where s = ?s0 and e = e and it = "it + 1"] by simp_all
    then have sg: "same_gateway s ?s1" by (simp add: same_gateway_def)
    have lastev: "last (trace ?s1) = Waited (sampling_interval s) (p \<le> polls s + 1)"
      using loop_body_last [of e "it + 1" ?s0] mono by simp
    have a: "polls ?s1 \<le> p + 1" using lt f(2) by simp
    have "p + 1 - polls s = (p + 1 - polls ?s1) + 2" using lt f(2) by simp
    then have k: "(p + 1 - polls s) div 2 = Suc ((p + 1 - polls ?s1) div 2)"
      by simp
    then have b: "(p + 1 - polls ?s1) div 2 < fuel" using Suc.prems(2) by simp
    from Suc.IH [OF a b, of "it + 1"] obtain s' where
      r: "run_loop fuel e (it + 1) ?s1 = Some (it + 1 + (p + 1 - polls ?s1) div 2, s')"
      and p1: "p < polls s'" and p2: "polls s' \<le> p + 2" and sg': "same_gateway ?s1 s'"
      and l: "polls ?s1 \<le> p \<and> odd (p - polls ?s1) \<longrightarrow>
              last (trace s') = Waited (sampling_interval ?s1) True"
      by blast
    have run: "run_loop (Suc fuel) e it s = Some (it + (p + 1 - polls s) div 2, s')"
      using False r k by simp
    have si: "sampling_interval ?s1 = sampling_interval s" using sg by (simp add: same_gateway_def)
    have final: "polls s \<le> p \<and> odd (p - polls s) \<longrightarrow>
              last (trace s') = Waited (sampling_interval s) True"
    proof (intro impI)
      assume o: "polls s \<le> p \<and> odd (p - polls s)"
      show "last (trace s') = Waited (sampling_interval s) True"
      proof (cases "polls ?s1 \<le> p")
        case True
        then have "odd (p - polls ?s1)" using o f(2) by (simp add: )
        with True l si show ?thesis by simp
      next
        case False
        then have eq: "polls s + 1 = p" using lt f(2) by simp
        then have st: "stop_is_set e (polls ?s1)" using mono f(2) by simp
        from b obtain fuel' where fu: "fuel = Suc fuel'" by (cases fuel) auto
        from r st have "s' = ?s1\<lparr>polls := polls ?s1 + 1\<rparr>"
          unfolding fu by simp
        then have "trace s' = trace ?s1" by simp
        with lastev eq show ?thesis by simp
      qed
    qed
    from run p1 p2 final sg sg' show ?thesis
      by (blast intro: same_gateway_trans)
  qed
qed

lemma run_loop_exit:
  "run_loop fuel e n s = Some (n', s') \<Longrightarrow> 0 < polls s' \<and> stop_is_set e (polls s' - 1)"
  by (induction fuel arbitrary: n s) (auto split: if_splits)

lemma no_sensors_same:
  "same_gateway s s' \<Longrightarrow> no_sensors_configured s' = no_sensors_configured s"
  by (simp add: no_sensors_configured_def same_gateway_def)

lemma quiet_payload:
  assumes "no_sensors_configured s"
    and "\<forall>ty n gw ed. \<exists>d. generate_data e ty n [] gw ed = Inr d \<and> readings_of d = []"
  shows "\<exists>p. generate_gateway_payload e it s = Inr p \<and> sensors p = []"
proof -
  from assms(2) obtain d1 where 1: "generate_data e ''speed'' it [] (gateway_id s) (sensors_edge_id s) = Inr d1" "readings_of d1 = []"
    by blast
  from assms(2) obtain d2 where 2: "generate_data e ''weather'' it [] (gateway_id s) (sensors_edge_id s) = Inr d2" "readings_of d2 = []"
    by blast
  from assms(2) obtain d3 where 3: "generate_data e ''camera'' it [] (gateway_id s) (sensors_edge_id s) = Inr d3" "readings_of d3 = []"
    by blast
  from assms(1) 1 2 3 show ?thesis
    by (simp add: generate_gateway_payload_def generate_sensor_data_def no_sensors_configured_def)
qed

lemma publish_step_skip:
  "sensors p = [] \<Longrightarrow> publish_step e p s = s\<lparr>trace := trace s @ [Skipped]\<rparr>"
  by (simp add: publish_step_def)

lemma loop_body_skip:
  assumes "generate_gateway_payload e it s = Inr p" "sensors p = []"
  shows "loop_body e it s =
           stop_event_wait e (sampling_interval s)
             (periodic_retry e it (s\<lparr>trace := trace s @ [Skipped]\<rparr>))"
  using assms by (simp add: loop_body_def iteration_try_def publish_step_skip)

lemma loop_body_skip_no_call:
  assumes "generate_gateway_payload e it s = Inr p" "sensors p = []"
    and "items (local_buffer s) = [] \<or> it mod 10 \<noteq> 0"
  shows "publish_calls (loop_body e it s) = publish_calls s
       \<and> local_buffer (loop_body e it s) = local_buffer s"
proof -
  have "periodic_retry e it (s\<lparr>trace := trace s @ [Skipped]\<rparr>) = s\<lparr>trace := trace s @ [Skipped]\<rparr>"
    using assms(3) by (auto simp: periodic_retry_def retry_buffered_messages_def)
  then show ?thesis
    using loop_body_skip [OF assms(1,2)] by (simp add: stop_event_wait_def)
qed

lemma idle_run:
  assumes q: "\<forall>ty n gw ed. \<exists>d. generate_data e ty n [] gw ed = Inr d \<and> readings_of d = []"
  shows "no_sensors_configured s \<Longrightarrow> items (local_buffer s) = [] \<Longrightarrow>
     publish_calls (snd (run_prefix k e n s)) = publish_calls s
     \<and> items (local_buffer (snd (run_prefix k e n s))) = []"
proof (induction k arbitrary: n s)
  case 0
  then show ?case by simp
next
  case (Suc k)
  show ?case
  proof (cases "stop_is_set e (polls s)")
    case True
    with Suc.prems show ?thesis by simp
  next
    case False
    let ?s0 = "s\<lparr>polls := polls s + 1\<rparr>"
    let ?s1 = "loop_body e (n + 1) ?s0"
    have ns0: "no_sensors_configured ?s0"
      using Suc.prems(1) by (simp add: no_sensors_configured_def)
    from quiet_payload [OF ns0 q, of "n + 1"] obtain p where
      p: "generate_gateway_payload e (n + 1) ?s0 = Inr p" "sensors p = []" by blast
    have e0: "items (local_buffer ?s0) = [] \<or> (n + 1) mod 10 \<noteq> 0"
      using Suc.prems(2) by simp
    from loop_body_skip_no_call [OF p e0]
    have c: "publish_calls ?s1 = publish_calls s" "items (local_buffer ?s1) = []"
      using Suc.prems(2) by simp_all
    have "same_gateway ?s0 ?s1"
      using loop_body_frame [where s = ?s0 and e = e and it = "n + 1"] by simp
    then have ns1: "no_sensors_configured ?s1"
      using ns0 by (simp add: no_sensors_same)
    from Suc.IH [OF ns1 c(2), of "n + 1"] c(1) False show ?thesis by simp
  qed
qed

text \<open>
  Claim C8.  When the payload of an iteration has no sensor readings, the publish step
  makes no publish call for it: the step only logs that it skips, the payload is neither
  sent nor buffered, and the iteration goes on to the drain step and the wait without an
  error.  Unless the iteration is a tenth one with payloads of earlier iterations in the
  buffer, which the drain step then replays, the iteration makes no publish call at all.
  A gateway without configured sensors, whose simulators give no readings for no
  sensors, never makes a publish call, however long it runs.
\<close>

theorem empty_payload_not_published:
  "(\<forall>p. generate_gateway_payload e it s = Inr p \<and> sensors p = [] \<longrightarrow>
       publish_step e p s = s\<lparr>trace := trace s @ [Skipped]\<rparr>
     \<and> loop_body e it s =
         stop_event_wait e (sampling_interval s)
           (periodic_retry e it (s\<lparr>trace := trace s @ [Skipped]\<rparr>))
     \<and> (items (local_buffer s) = [] \<or> it mod 10 \<noteq> 0 \<longrightarrow>
           publish_calls (loop_body e it s) = publish_calls s
         \<and> local_buffer (loop_body e it s) = local_buffer s))
   \<and> (no_sensors_configured s \<and> items (local_buffer s) = []
       \<and> (\<forall>ty n gw ed. \<exists>d. generate_data e ty n [] gw ed = Inr d \<and> readings_of d = [])
       \<longrightarrow> (\<forall>k n. publish_calls (snd (run_prefix k e n s)) = publish_calls s))"
proof (intro conjI allI impI)
  fix p assume h: "generate_gateway_payload e it s = Inr p \<and> sensors p = []"
  then show "publish_step e p s = s\<lparr>trace := trace s @ [Skipped]\<rparr>"
    by (simp add: publish_step_skip)
  from h show "loop_body e it s =
         stop_event_wait e (sampling_interval s)
           (periodic_retry e it (s\<lparr>trace := trace s @ [Skipped]\<rparr>))"
    by (simp add: loop_body_skip)
  assume "items (local_buffer s) = [] \<or> it mod 10 \<noteq> 0"
  with h loop_body_skip_no_call [of e it s p]
  show "publish_calls (loop_body e it s) = publish_calls s"
    and "local_buffer (loop_body e it s) = local_buffer s"
    by blast+
next
  fix k n
  assume "no_sensors_configured s \<and> items (local_buffer s) = []
       \<and> (\<forall>ty n gw ed. \<exists>d. generate_data e ty n [] gw ed = Inr d \<and> readings_of d = [])"
  then show "publish_calls (snd (run_prefix k e n s)) = publish_calls s"
    using idle_run [of e s k n] by blast
qed

lemma example_gateway_eq:
  "example_gateway = \<lparr>district_id = ''D1'', gateway_id = ''GW-E-00001'',
       gateway_name = ''Gateway at E-00001'', location = (42, 13),
       sensors_config = [(''speed'', [\<lparr>sensor_id = ''speed-E-00001-a'',
                                       sensor_location = ''Speed sensor 1'',
                                       offset_lat = 0, offset_lon = 0\<rparr>])],
       sensors_edge_id = ''E-00001'',
       local_buffer = \<lparr>maxlen = 1000, items = []\<rparr>,
       sampling_interval = 7 / 2, publish_calls = 0, polls = 0, trace = []\<rparr>"
  by (simp add: example_gateway_def EdgeManager_init_def example_config_def uniform_def half_stream_def)

text \<open>
  Claim C4 says that a worker with \<open>N\<close> publish failures in a row holds \<open>min(N, C)\<close>
  payloads, the newest ones.  In the gateway loop the drain of the tenth iteration
  empties the buffer before it replays: with Kafka down for ten iterations the gateway
  has made 11 publish calls, all failed, and holds one payload, the oldest.
\<close>

theorem ten_failures_leave_one_counterexample:
  "publish_calls (snd (run_prefix 10 env_kafka_down 0 example_gateway)) = 11
   \<and> length (filter is_send_failed (trace (snd (run_prefix 10 env_kafka_down 0 example_gateway)))) = 11
   \<and> items (local_buffer (snd (run_prefix 10 env_kafka_down 0 example_gateway))) = [example_payload 1]
   \<and> length (items (local_buffer (snd (run_prefix 10 env_kafka_down 0 example_gateway))))
       \<noteq> min 11 (maxlen (local_buffer (snd (run_prefix 10 env_kafka_down 0 example_gateway))))"
  by code_simp

text \<open>
  Claim C4, as the code has it.  The buffer of a new gateway has capacity 1000 and is
  within it; no sequence of publish calls and drains, and no number of rounds of the
  gateway loop, takes a buffer beyond its capacity \<open>C\<close> or changes the capacity; a failed
  publish call on a full buffer drops exactly the oldest entry and puts the new one
  last; and \<open>N\<close> publish calls in a row that all fail, with no drain between them, take
  an empty buffer to the last \<open>min(N, C)\<close> of their payloads, in order.
\<close>

theorem buffer_bounded_newest_kept:
  "buffer_ok 1000 (fst (EdgeManager_init rng pos district edge_cfg))
   \<and> (\<forall>self. buffer_ok C self \<longrightarrow>
         (\<forall>ops. buffer_ok C (apply_ops e ops self))
       \<and> (\<forall>k n. buffer_ok C (snd (run_prefix k e n self))))
   \<and> (\<forall>self p. buffer_ok C self \<and> 0 < C \<and> length (items (local_buffer self)) = C
         \<and> \<not> kafka_ok e (publish_calls self) p \<longrightarrow>
         items (local_buffer (snd (send_to_kafka e p self))) = tl (items (local_buffer self)) @ [p])
   \<and> (\<forall>self ps. buffer_ok C self \<and> items (local_buffer self) = []
         \<and> (\<forall>j<length ps. \<not> kafka_ok e (publish_calls self + j) (ps ! j)) \<longrightarrow>
         items (local_buffer (send_all e ps self)) = drop (length ps - C) ps
         \<and> length (items (local_buffer (send_all e ps self))) = min (length ps) C)"
proof (intro conjI allI impI)
  show "buffer_ok 1000 (fst (EdgeManager_init rng pos district edge_cfg))"
    by (simp add: buffer_ok_def EdgeManager_init_def)
next
  fix self ops assume "buffer_ok C self"
  then show "buffer_ok C (apply_ops e ops self)" by (rule apply_ops_buffer_ok)
next
  fix self k n assume "buffer_ok C self"
  then show "buffer_ok C (snd (run_prefix k e n self))" by (rule run_prefix_buffer_ok)
next
  fix self p
  assume h: "buffer_ok C self \<and> 0 < C \<and> length (items (local_buffer self)) = C
         \<and> \<not> kafka_ok e (publish_calls self) p"
  then have "maxlen (local_buffer self) < length (items (local_buffer self) @ [p])"
    by (simp add: buffer_ok_def)
  moreover from h have "items (local_buffer self) \<noteq> []" by auto
  ultimately show "items (local_buffer (snd (send_to_kafka e p self)))
      = tl (items (local_buffer self)) @ [p]"
    using h by (simp add: send_to_kafka_def deque_append_def Let_def)
next
  fix self ps
  assume h: "buffer_ok C self \<and> items (local_buffer self) = []
         \<and> (\<forall>j<length ps. \<not> kafka_ok e (publish_calls self + j) (ps ! j))"
  then have a: "length (items (local_buffer self)) \<le> maxlen (local_buffer self)"
    and b: "\<forall>j<length ps. \<not> kafka_ok e (publish_calls self + j) (ps ! j)"
    and c: "maxlen (local_buffer self) = C" "items (local_buffer self) = []"
    by (simp_all add: buffer_ok_def)
  from send_all_failures [OF a b] c
  show "items (local_buffer (send_all e ps self)) = drop (length ps - C) ps" by simp
  then show "length (items (local_buffer (send_all e ps self))) = min (length ps) C"
    by simp
qed

theorem buffer_bounded_newest_kept_witness:
  "buffer_ok 1000 example_gateway
   \<and> buffer_ok 1000
       (apply_ops env_kafka_down [SendToKafka (example_payload 1), RetryBuffered] example_gateway)
   \<and> buffer_ok 2 small_gateway
   \<and> items (local_buffer
        (send_all env_kafka_down [example_payload 1, example_payload 2] small_gateway))
       = [example_payload 1, example_payload 2]
   \<and> items (local_buffer
        (send_all env_kafka_down [example_payload 1, example_payload 2, example_payload 3]
           small_gateway))
       = [example_payload 2, example_payload 3]
   \<and> items (local_buffer (snd (send_to_kafka env_kafka_down (example_payload 3)
        (send_all env_kafka_down [example_payload 1, example_payload 2] small_gateway))))
       = [example_payload 2, example_payload 3]"
proof -
  note t = buffer_bounded_newest_kept [of half_stream 0 "''D1''" example_config 2 env_kafka_down]
  note u = buffer_bounded_newest_kept [of half_stream 0 "''D1''" example_config 1000 env_kafka_down]
  have ok: "buffer_ok 1000 example_gateway" using u by (simp add: example_gateway_def)
  with u have ops: "buffer_ok 1000
       (apply_ops env_kafka_down [SendToKafka (example_payload 1), RetryBuffered] example_gateway)"
    by blast
  have small: "buffer_ok 2 small_gateway" "items (local_buffer small_gateway) = []"
    "publish_calls small_gateway = 0"
    by (simp_all add: small_gateway_def buffer_ok_def example_gateway_eq)
  have down: "\<And>n d. \<not> kafka_ok env_kafka_down n d" by (simp add: env_kafka_down_def)
  from t have t4: "\<And>self ps. buffer_ok 2 self \<Longrightarrow> items (local_buffer self) = [] \<Longrightarrow>
         (\<forall>j<length ps. \<not> kafka_ok env_kafka_down (publish_calls self + j) (ps ! j)) \<Longrightarrow>
         items (local_buffer (send_all env_kafka_down ps self)) = drop (length ps - 2) ps"
    by blast
  from t have t3: "\<And>self p. buffer_ok 2 self \<Longrightarrow> length (items (local_buffer self)) = 2 \<Longrightarrow>
         \<not> kafka_ok env_kafka_down (publish_calls self) p \<Longrightarrow>
         items (local_buffer (snd (send_to_kafka env_kafka_down p self)))
           = tl (items (local_buffer self)) @ [p]"
    by simp
  from t have t2: "\<And>self ops. buffer_ok 2 self \<Longrightarrow> buffer_ok 2 (apply_ops env_kafka_down ops self)"
    by blast
  have two: "items (local_buffer
        (send_all env_kafka_down [example_payload 1, example_payload 2] small_gateway))
       = [example_payload 1, example_payload 2]"
    using t4 [OF small(1,2), of "[example_payload 1, example_payload 2]"] down by simp
  have three: "items (local_buffer
        (send_all env_kafka_down [example_payload 1, example_payload 2, example_payload 3]
           small_gateway))
       = [example_payload 2, example_payload 3]"
    using t4 [OF small(1,2), of "[example_payload 1, example_payload 2, example_payload 3]"] down
    by simp
  have "send_all env_kafka_down [example_payload 1, example_payload 2] small_gateway
      = apply_ops env_kafka_down [SendToKafka (example_payload 1), SendToKafka (example_payload 2)] small_gateway"
    by simp
  then have ok2: "buffer_ok 2 (send_all env_kafka_down [example_payload 1, example_payload 2] small_gateway)"
    using t2 [OF small(1), of "[SendToKafka (example_payload 1), SendToKafka (example_payload 2)]"]
    by (simp only:)
  have evict: "items (local_buffer (snd (send_to_kafka env_kafka_down (example_payload 3)
        (send_all env_kafka_down [example_payload 1, example_payload 2] small_gateway))))
       = [example_payload 2, example_payload 3]"
    using t3 [OF ok2, of "example_payload 3"] two down by simp
  from ok ops small(1) two three evict show ?thesis by blast
qed

theorem drain_every_tenth_iteration_witness:
  "(10 :: nat) mod 10 = 0
   \<and> 0 < maxlen (local_buffer (send_all env_fourth_call_ok
            [example_payload 1, example_payload 2, example_payload 3] example_gateway))
   \<and> items (local_buffer (send_all env_fourth_call_ok
            [example_payload 1, example_payload 2, example_payload 3] example_gateway))
       = [example_payload 1, example_payload 2, example_payload 3]
   \<and> periodic_retry env_fourth_call_ok 10 (send_all env_fourth_call_ok
            [example_payload 1, example_payload 2, example_payload 3] example_gateway)
       = (send_all env_fourth_call_ok
            [example_payload 1, example_payload 2, example_payload 3] example_gateway)
          \<lparr>local_buffer := \<lparr>maxlen = 1000, items = [example_payload 2]\<rparr>,
           publish_calls := 5,
           trace := [SendFailed (example_payload 1), SendFailed (example_payload 2),
                     SendFailed (example_payload 3), Sent (example_payload 1),
                     SendFailed (example_payload 2)]\<rparr>"
proof -
  define s where "s = send_all env_fourth_call_ok
            [example_payload 1, example_payload 2, example_payload 3] example_gateway"
  have s: "s = example_gateway
          \<lparr>local_buffer := \<lparr>maxlen = 1000,
               items = [example_payload 1, example_payload 2, example_payload 3]\<rparr>,
           publish_calls := 3,
           trace := [SendFailed (example_payload 1), SendFailed (example_payload 2),
                     SendFailed (example_payload 3)]\<rparr>"
    unfolding s_def
    by (simp add: send_to_kafka_def env_fourth_call_ok_def example_gateway_eq deque_append_def)
  have h1: "(10 :: nat) mod 10 = 0" by simp
  have h2: "0 < maxlen (local_buffer s)" by (simp add: s)
  have b: "items (local_buffer s) = [example_payload 1, example_payload 2, example_payload 3]"
    by (simp add: s)
  note t = drain_every_tenth_iteration [OF h1 h2, of env_fourth_call_ok]
  from t have a: "periodic_retry env_fourth_call_ok 10 s = retry_buffered_messages env_fourth_call_ok s"
    by blast
  from t have "items (local_buffer s) = [example_payload 1] @ example_payload 2 # [example_payload 3]
          \<and> (\<forall>j<length [example_payload 1].
                kafka_ok env_fourth_call_ok (publish_calls s + j) ([example_payload 1] ! j))
          \<and> \<not> kafka_ok env_fourth_call_ok (publish_calls s + length [example_payload 1])
                (example_payload 2) \<longrightarrow>
          retry_buffered_messages env_fourth_call_ok s =
            s\<lparr>local_buffer := (local_buffer s)\<lparr>items := [example_payload 2]\<rparr>,
              publish_calls := publish_calls s + length [example_payload 1] + 1,
              trace := trace s @ map Sent [example_payload 1] @ [SendFailed (example_payload 2)]\<rparr>"
    by blast
  moreover have "items (local_buffer s) = [example_payload 1] @ example_payload 2 # [example_payload 3]"
    by (simp add: s)
  moreover have "\<forall>j<length [example_payload 1].
      kafka_ok env_fourth_call_ok (publish_calls s + j) ([example_payload 1] ! j)"
    by (simp add: s env_fourth_call_ok_def)
  moreover have "\<not> kafka_ok env_fourth_call_ok (publish_calls s + length [example_payload 1])
      (example_payload 2)"
    by (simp add: s env_fourth_call_ok_def)
  ultimately have "retry_buffered_messages env_fourth_call_ok s =
            s\<lparr>local_buffer := (local_buffer s)\<lparr>items := [example_payload 2]\<rparr>,
              publish_calls := publish_calls s + length [example_payload 1] + 1,
              trace := trace s @ map Sent [example_payload 1] @ [SendFailed (example_payload 2)]\<rparr>"
    by blast
  with a have "periodic_retry env_fourth_call_ok 10 s =
            s\<lparr>local_buffer := (local_buffer s)\<lparr>items := [example_payload 2]\<rparr>,
              publish_calls := publish_calls s + length [example_payload 1] + 1,
              trace := trace s @ map Sent [example_payload 1] @ [SendFailed (example_payload 2)]\<rparr>"
    by simp
  then have "periodic_retry env_fourth_call_ok 10 s = s
          \<lparr>local_buffer := \<lparr>maxlen = 1000, items = [example_payload 2]\<rparr>,
           publish_calls := 5,
           trace := [SendFailed (example_payload 1), SendFailed (example_payload 2),
                     SendFailed (example_payload 3), Sent (example_payload 1),
                     SendFailed (example_payload 2)]\<rparr>"
    by (simp add: s)
  with h1 h2 b show ?thesis unfolding s_def by blast
qed

text \<open>
  Claim C5.  The looks of a gateway at the stop event are numbered: from a loop test at
  look \<open>polls self\<close>, the loop test of the \<open>j\<close>-th further round is look
  \<open>polls self + 2 * j\<close> and its wait is look \<open>polls self + 2 * j + 1\<close>.  Let the event be
  set, for good, so that look \<open>p\<close> is the first to see it.  Then \<open>run\<close> returns normally
  (given tests enough), after exactly the rounds that began before look \<open>p\<close>: when \<open>p\<close>
  is a loop test, the loop ends there; when \<open>p\<close> is a wait, the round in flight ends with
  that wait, which is cut short, and the next loop test ends the loop.  In both cases
  the gateway looks at the event at most twice from \<open>p\<close> on.
\<close>

theorem shutdown_stops_worker:
  assumes "\<forall>n. stop_is_set e n \<longleftrightarrow> p \<le> n"
    and "polls self \<le> p + 1"
    and "(p + 1 - polls self) div 2 < fuel"
  shows "\<exists>s'. run_loop fuel e iteration self
                = Some (iteration + (p + 1 - polls self) div 2, s')
           \<and> p < polls s' \<and> polls s' \<le> p + 2
           \<and> same_gateway self s'
           \<and> (polls self \<le> p \<and> odd (p - polls self) \<longrightarrow>
                 last (trace s') = Waited (sampling_interval self) True)"
  using assms by (rule run_loop_stops)

theorem shutdown_stops_worker_witness:
  "(\<forall>n. stop_is_set env_stop_at_3 n \<longleftrightarrow> 3 \<le> n)
   \<and> polls example_gateway \<le> 3 + 1
   \<and> (3 + 1 - polls example_gateway) div 2 < 10
   \<and> odd (3 - polls example_gateway)
   \<and> (\<exists>s'. run 10 env_stop_at_3 example_gateway = Some (2, s')
          \<and> 3 < polls s' \<and> polls s' \<le> 5
          \<and> last (trace s') = Waited (7 / 2) True)"
proof -
  have h1: "\<forall>n. stop_is_set env_stop_at_3 n \<longleftrightarrow> 3 \<le> n" by (simp add: env_stop_at_3_def)
  have h2: "polls example_gateway \<le> 3 + 1" by (simp add: example_gateway_eq)
  have h3: "(3 + 1 - polls example_gateway) div 2 < 10" by (simp add: example_gateway_eq)
  have h4: "odd (3 - polls example_gateway)" by (simp add: example_gateway_eq)
  from shutdown_stops_worker [OF h1 h2 h3, of 0] obtain s' where
    "run_loop 10 env_stop_at_3 0 example_gateway = Some (0 + (3 + 1 - polls example_gateway) div 2, s')"
    "3 < polls s'" "polls s' \<le> 3 + 2"
    "polls example_gateway \<le> 3 \<and> odd (3 - polls example_gateway) \<longrightarrow>
                 last (trace s') = Waited (sampling_interval example_gateway) True"
    by blast
  then have "run 10 env_stop_at_3 example_gateway = Some (2, s')
          \<and> 3 < polls s' \<and> polls s' \<le> 5
          \<and> last (trace s') = Waited (7 / 2) True"
    by (simp add: run_def example_gateway_eq)
  with h1 h2 h3 h4 show ?thesis by blast
qed

lemma loop_body_fault_poll:
  "generate_gateway_payload e it s = Inl x \<Longrightarrow>
     loop_body e it (s\<lparr>polls := polls s + 1\<rparr>) =
       s\<lparr>trace := trace s @ [LoopError x, Waited (sampling_interval s) (stop_is_set e (polls s + 1))],
         polls := polls s + 2\<rparr>"
proof -
  assume a: "generate_gateway_payload e it s = Inl x"
  have "same_gateway s (s\<lparr>polls := polls s + 1\<rparr>)" by (simp add: same_gateway_def)
  then have "generate_gateway_payload e it (s\<lparr>polls := polls s + 1\<rparr>) = Inl x"
    using a by (simp add: generate_gateway_payload_same)
  from loop_body_fault [OF this] show ?thesis by simp
qed

text \<open>
  Claim C6.  An exception of payload generation leaves the \<open>try\<close> block and is caught by
  the handler of the loop: the round logs it, waits with the sampling interval and
  changes nothing else.  A failed publish call, in the publish step or in the drain, is
  caught inside \<open>send_to_kafka\<close> and the \<open>try\<close> block runs to its end.  Every round
  waits exactly once, with the sampling interval.  After a faulted round the loop tests
  the stop event and, when it is not set, runs the body of the next round on a gateway
  that differs only by the log entry and the wait.  The loop returns only from a loop
  test that sees the stop event set.
\<close>

theorem iteration_fault_is_contained:
  "(\<forall>x. generate_gateway_payload e it s = Inl x \<longrightarrow>
        iteration_try e it s = Inl x
      \<and> loop_body e it s =
          s\<lparr>trace := trace s @ [LoopError x,
                                  Waited (sampling_interval s) (stop_is_set e (polls s))],
            polls := polls s + 1\<rparr>)
   \<and> (\<forall>p. generate_gateway_payload e it s = Inr p \<longrightarrow> (\<exists>s'. iteration_try e it s = Inr s'))
   \<and> wait_timeouts (trace (loop_body e it s)) = wait_timeouts (trace s) @ [sampling_interval s]
   \<and> (\<forall>x k n. \<not> stop_is_set e (polls s) \<and> generate_gateway_payload e (n + 1) s = Inl x
          \<and> \<not> stop_is_set e (polls s + 2) \<longrightarrow>
        run_prefix (Suc (Suc k)) e n s =
          run_prefix k e (n + 2)
            (loop_body e (n + 2)
               (s\<lparr>trace := trace s @ [LoopError x,
                     Waited (sampling_interval s) (stop_is_set e (polls s + 1))],
                  polls := polls s + 3\<rparr>)))
   \<and> (\<forall>fuel n n' s'. run_loop fuel e n s = Some (n', s') \<longrightarrow>
        0 < polls s' \<and> stop_is_set e (polls s' - 1))"
proof (intro conjI allI impI)
  fix x assume "generate_gateway_payload e it s = Inl x"
  then show "iteration_try e it s = Inl x"
    and "loop_body e it s =
          s\<lparr>trace := trace s @ [LoopError x,
                                  Waited (sampling_interval s) (stop_is_set e (polls s))],
            polls := polls s + 1\<rparr>"
    by (simp_all add: iteration_try_def loop_body_fault)
next
  fix p assume "generate_gateway_payload e it s = Inr p"
  then show "\<exists>s'. iteration_try e it s = Inr s'" by (simp add: iteration_try_def)
next
  show "wait_timeouts (trace (loop_body e it s)) = wait_timeouts (trace s) @ [sampling_interval s]"
    using loop_body_frame [where s = s and e = e and it = it] by simp
next
  fix x k n
  assume h: "\<not> stop_is_set e (polls s) \<and> generate_gateway_payload e (n + 1) s = Inl x
          \<and> \<not> stop_is_set e (polls s + 2)"
  then have g: "generate_gateway_payload e (n + 1) s = Inl x" by blast
  note lb = loop_body_fault_poll [OF g]
  from h lb show "run_prefix (Suc (Suc k)) e n s =
          run_prefix k e (n + 2)
            (loop_body e (n + 2)
               (s\<lparr>trace := trace s @ [LoopError x,
                     Waited (sampling_interval s) (stop_is_set e (polls s + 1))],
                  polls := polls s + 3\<rparr>))"
    by (simp add: eval_nat_numeral)
next
  fix fuel n n' s'
  assume "run_loop fuel e n s = Some (n', s')"
  then show "0 < polls s'" and "stop_is_set e (polls s' - 1)"
    using run_loop_exit by blast+
qed

lemma gen_fault:
  "generate_gateway_payload env_fault_in_2 2 example_gateway = Inl (Raised ''sensor fault'')"
  by (simp add: generate_gateway_payload_def generate_sensor_data_def env_fault_in_2_def)

lemma gen_fault_3:
  "generate_gateway_payload env_fault_in_2 3 example_gateway = Inr (example_payload 3)"
  by (simp add: generate_gateway_payload_def generate_sensor_data_def env_fault_in_2_def
      echo_simulators_def dict_get_def example_gateway_eq readings_of_def example_payload_def
      GATEWAY_VERSION_def GATEWAY_FIRMWARE_def)

theorem iteration_fault_is_contained_witness:
  "generate_gateway_payload env_fault_in_2 2 example_gateway = Inl (Raised ''sensor fault'')
   \<and> loop_body env_fault_in_2 2 example_gateway =
       example_gateway\<lparr>trace := [LoopError (Raised ''sensor fault''), Waited (7 / 2) False],
                       polls := 1\<rparr>
   \<and> generate_gateway_payload env_fault_in_2 3 example_gateway = Inr (example_payload 3)
   \<and> (\<exists>s'. iteration_try env_fault_in_2 3 example_gateway = Inr s')
   \<and> \<not> stop_is_set env_fault_in_2 (polls example_gateway)
   \<and> \<not> stop_is_set env_fault_in_2 (polls example_gateway + 2)
   \<and> trace (snd (run_prefix 2 env_fault_in_2 1 example_gateway)) =
       [LoopError (Raised ''sensor fault''), Waited (7 / 2) False,
        Sent (example_payload 3), Waited (7 / 2) False]
   \<and> (\<exists>n' s'. run_loop 5 env_stop_at_3 0 example_gateway = Some (n', s')
         \<and> stop_is_set env_stop_at_3 (polls s' - 1))"
proof -
  note t = iteration_fault_is_contained [of env_fault_in_2 2 example_gateway]
  note u = iteration_fault_is_contained [of env_fault_in_2 3 example_gateway]
  note v = iteration_fault_is_contained [of env_stop_at_3 0 example_gateway]
  have ns: "\<not> stop_is_set env_fault_in_2 (polls example_gateway)"
    "\<not> stop_is_set env_fault_in_2 (polls example_gateway + 2)"
    by (simp_all add: env_fault_in_2_def)
  from t gen_fault have a: "loop_body env_fault_in_2 2 example_gateway =
       example_gateway\<lparr>trace := trace example_gateway @ [LoopError (Raised ''sensor fault''),
           Waited (sampling_interval example_gateway) (stop_is_set env_fault_in_2 (polls example_gateway))],
         polls := polls example_gateway + 1\<rparr>"
    by blast
  then have a': "loop_body env_fault_in_2 2 example_gateway =
       example_gateway\<lparr>trace := [LoopError (Raised ''sensor fault''), Waited (7 / 2) False],
                       polls := 1\<rparr>"
    by (simp add: example_gateway_eq env_fault_in_2_def)
  from u gen_fault_3 have b: "\<exists>s'. iteration_try env_fault_in_2 3 example_gateway = Inr s'"
    by blast
  have g2: "generate_gateway_payload env_fault_in_2 (1 + 1) example_gateway
      = Inl (Raised ''sensor fault'')"
    using gen_fault by (simp only: one_add_one)
  from t have "\<not> stop_is_set env_fault_in_2 (polls example_gateway)
      \<and> generate_gateway_payload env_fault_in_2 (1 + 1) example_gateway = Inl (Raised ''sensor fault'')
      \<and> \<not> stop_is_set env_fault_in_2 (polls example_gateway + 2) \<longrightarrow>
        run_prefix (Suc (Suc 0)) env_fault_in_2 1 example_gateway =
          run_prefix 0 env_fault_in_2 (1 + 2)
            (loop_body env_fault_in_2 (1 + 2)
               (example_gateway\<lparr>trace := trace example_gateway @ [LoopError (Raised ''sensor fault''),
                     Waited (sampling_interval example_gateway) (stop_is_set env_fault_in_2 (polls example_gateway + 1))],
                  polls := polls example_gateway + 3\<rparr>))"
    by blast
  with ns g2 have eq: "run_prefix (Suc (Suc 0)) env_fault_in_2 1 example_gateway =
          run_prefix 0 env_fault_in_2 (1 + 2)
            (loop_body env_fault_in_2 (1 + 2)
               (example_gateway\<lparr>trace := trace example_gateway @ [LoopError (Raised ''sensor fault''),
                     Waited (sampling_interval example_gateway) (stop_is_set env_fault_in_2 (polls example_gateway + 1))],
                  polls := polls example_gateway + 3\<rparr>))"
    by blast
  have three: "(1 :: nat) + 2 = 3" by simp
  have "trace (snd (run_prefix 0 env_fault_in_2 3
            (loop_body env_fault_in_2 3
               (example_gateway\<lparr>trace := trace example_gateway @ [LoopError (Raised ''sensor fault''),
                     Waited (sampling_interval example_gateway) (stop_is_set env_fault_in_2 (polls example_gateway + 1))],
                  polls := polls example_gateway + 3\<rparr>)))) =
       [LoopError (Raised ''sensor fault''), Waited (7 / 2) False,
        Sent (example_payload 3), Waited (7 / 2) False]"
    by (simp add: example_gateway_eq env_fault_in_2_def loop_body_def
        iteration_try_def generate_gateway_payload_def generate_sensor_data_def
        echo_simulators_def dict_get_def readings_of_def example_payload_def
        GATEWAY_VERSION_def GATEWAY_FIRMWARE_def publish_step_def send_to_kafka_def
        periodic_retry_def stop_event_wait_def)
  then have c: "trace (snd (run_prefix 2 env_fault_in_2 1 example_gateway)) =
       [LoopError (Raised ''sensor fault''), Waited (7 / 2) False,
        Sent (example_payload 3), Waited (7 / 2) False]"
    using eq unfolding three by (simp only: numeral_2_eq_2)
  have "\<forall>n. stop_is_set env_stop_at_3 n \<longleftrightarrow> 3 \<le> n"
    by (simp add: env_stop_at_3_def)
  moreover have "polls example_gateway \<le> 3 + 1" "(3 + 1 - polls example_gateway) div 2 < 5"
    by (simp_all add: example_gateway_eq)
  ultimately have "\<exists>n' s'. run_loop 5 env_stop_at_3 0 example_gateway = Some (n', s')"
    using run_loop_stops [of env_stop_at_3 3 example_gateway 5 0] by blast
  then obtain n' s' where r: "run_loop 5 env_stop_at_3 0 example_gateway = Some (n', s')"
    by blast
  with v have "stop_is_set env_stop_at_3 (polls s' - 1)" by blast
  with r have d: "\<exists>n' s'. run_loop 5 env_stop_at_3 0 example_gateway = Some (n', s')
         \<and> stop_is_set env_stop_at_3 (polls s' - 1)" by blast
  from gen_fault a' gen_fault_3 b ns c d show ?thesis by blast
qed

text \<open>
  Claim C9.  The constructor takes one draw from the random stream and sets the
  sampling interval to \<open>uniform(2.5, 4.5)\<close> of it, which lies between 2.5 and 4.5 for a
  draw between 0 and 1.  No round of the loop changes the interval, and every wait of a
  run, the wait of a faulted round included, has the interval as its timeout: the
  timeouts of the waits of a run are as many copies of the interval as rounds were run.
\<close>

theorem sampling_interval_fixed:
  "sampling_interval (fst (EdgeManager_init rng pos district edge_cfg)) = uniform 2.5 4.5 (rng pos)
   \<and> snd (EdgeManager_init rng pos district edge_cfg) = pos + 1
   \<and> (0 \<le> rng pos \<and> rng pos \<le> 1 \<longrightarrow>
         2.5 \<le> sampling_interval (fst (EdgeManager_init rng pos district edge_cfg))
       \<and> sampling_interval (fst (EdgeManager_init rng pos district edge_cfg)) \<le> 4.5)
   \<and> sampling_interval (loop_body e it s) = sampling_interval s
   \<and> sampling_interval (snd (run_prefix k e n s)) = sampling_interval s
   \<and> wait_timeouts (trace (snd (run_prefix k e n s)))
       = wait_timeouts (trace s) @ replicate (fst (run_prefix k e n s) - n) (sampling_interval s)
   \<and> (\<forall>x. generate_gateway_payload e it s = Inl x \<longrightarrow>
         wait_timeouts (trace (loop_body e it s)) = wait_timeouts (trace s) @ [sampling_interval s])
   \<and> (\<forall>fuel n' s'. run_loop fuel e n s = Some (n', s') \<longrightarrow>
         sampling_interval s' = sampling_interval s
       \<and> wait_timeouts (trace s')
           = wait_timeouts (trace s) @ replicate (n' - n) (sampling_interval s))"
proof (intro conjI allI impI)
  show "sampling_interval (fst (EdgeManager_init rng pos district edge_cfg)) = uniform 2.5 4.5 (rng pos)"
    and "snd (EdgeManager_init rng pos district edge_cfg) = pos + 1"
    by (simp_all add: EdgeManager_init_def)
next
  assume r: "0 \<le> rng pos \<and> rng pos \<le> 1"
  have "uniform 2.5 4.5 (rng pos) = 2.5 + 2 * rng pos" by (simp add: uniform_def)
  with r show "2.5 \<le> sampling_interval (fst (EdgeManager_init rng pos district edge_cfg))"
    and "sampling_interval (fst (EdgeManager_init rng pos district edge_cfg)) \<le> 4.5"
    by (simp_all add: EdgeManager_init_def)
next
  show "sampling_interval (loop_body e it s) = sampling_interval s"
    using loop_body_frame [where s = s and e = e and it = it] by (simp add: same_gateway_def)
next
  show "sampling_interval (snd (run_prefix k e n s)) = sampling_interval s"
    using run_prefix_frame [where s = s and e = e and it = n and k = k]
    by (simp add: same_gateway_def)
next
  show "wait_timeouts (trace (snd (run_prefix k e n s)))
       = wait_timeouts (trace s) @ replicate (fst (run_prefix k e n s) - n) (sampling_interval s)"
    using run_prefix_frame [where s = s and e = e and it = n and k = k] by blast
next
  fix x
  show "wait_timeouts (trace (loop_body e it s)) = wait_timeouts (trace s) @ [sampling_interval s]"
    using loop_body_frame [where s = s and e = e and it = it] by blast
next
  fix fuel n' s'
  assume "run_loop fuel e n s = Some (n', s')"
  then have "(n', s') = run_prefix fuel e n s" by (rule run_loop_is_prefix)
  then have eq: "n' = fst (run_prefix fuel e n s)" "s' = snd (run_prefix fuel e n s)"
    by (metis fst_conv, metis snd_conv)
  show "sampling_interval s' = sampling_interval s"
    unfolding eq using run_prefix_frame [where s = s and e = e and it = n and k = fuel]
    by (simp add: same_gateway_def)
  show "wait_timeouts (trace s')
           = wait_timeouts (trace s) @ replicate (n' - n) (sampling_interval s)"
    unfolding eq using run_prefix_frame [where s = s and e = e and it = n and k = fuel]
    by blast
qed

theorem sampling_interval_fixed_witness:
  "0 \<le> half_stream 0 \<and> half_stream 0 \<le> 1
   \<and> sampling_interval example_gateway = 7 / 2
   \<and> 2.5 \<le> sampling_interval example_gateway \<and> sampling_interval example_gateway \<le> 4.5
   \<and> generate_gateway_payload env_fault_in_2 2 example_gateway = Inl (Raised ''sensor fault'')
   \<and> wait_timeouts (trace (loop_body env_fault_in_2 2 example_gateway)) = [7 / 2]
   \<and> wait_timeouts (trace (snd (run_prefix 3 env_fault_in_2 0 example_gateway)))
       = [7 / 2, 7 / 2, 7 / 2]
   \<and> (\<exists>n' s'. run_loop 5 env_stop_at_3 0 example_gateway = Some (n', s')
         \<and> sampling_interval s' = 7 / 2
         \<and> wait_timeouts (trace s') = replicate n' (7 / 2))"
proof -
  note t = sampling_interval_fixed [of half_stream 0 "''D1''" example_config env_fault_in_2 2
      example_gateway 3 0]
  note u = sampling_interval_fixed [of half_stream 0 "''D1''" example_config env_stop_at_3 2
      example_gateway 3 0]
  have r: "0 \<le> half_stream 0 \<and> half_stream 0 \<le> 1" by (simp add: half_stream_def)
  with t have b: "2.5 \<le> sampling_interval example_gateway \<and> sampling_interval example_gateway \<le> 4.5"
    unfolding example_gateway_def by blast
  have si: "sampling_interval example_gateway = 7 / 2" "wait_timeouts (trace example_gateway) = []"
    by (simp_all add: example_gateway_eq)
  from t gen_fault have "wait_timeouts (trace (loop_body env_fault_in_2 2 example_gateway))
      = wait_timeouts (trace example_gateway) @ [sampling_interval example_gateway]"
    by blast
  then have w1: "wait_timeouts (trace (loop_body env_fault_in_2 2 example_gateway)) = [7 / 2]"
    by (simp add: si)
  have f3: "fst (run_prefix 3 env_fault_in_2 0 example_gateway) = 3"
    by code_simp
  from t have "wait_timeouts (trace (snd (run_prefix 3 env_fault_in_2 0 example_gateway)))
       = wait_timeouts (trace example_gateway)
         @ replicate (fst (run_prefix 3 env_fault_in_2 0 example_gateway) - 0)
             (sampling_interval example_gateway)"
    by blast
  then have w3: "wait_timeouts (trace (snd (run_prefix 3 env_fault_in_2 0 example_gateway)))
       = [7 / 2, 7 / 2, 7 / 2]"
  proof -
    assume "wait_timeouts (trace (snd (run_prefix 3 env_fault_in_2 0 example_gateway)))
       = wait_timeouts (trace example_gateway)
         @ replicate (fst (run_prefix 3 env_fault_in_2 0 example_gateway) - 0)
             (sampling_interval example_gateway)"
    moreover have "replicate (3 - 0) (7 / 2 :: real) = [7 / 2, 7 / 2, 7 / 2]"
      by (simp add: eval_nat_numeral)
    ultimately show ?thesis by (simp only: si f3 append_Nil)
  qed
  have "\<forall>n. stop_is_set env_stop_at_3 n \<longleftrightarrow> 3 \<le> n"
    by (simp add: env_stop_at_3_def)
  moreover have "polls example_gateway \<le> 3 + 1" "(3 + 1 - polls example_gateway) div 2 < 5"
    by (simp_all add: example_gateway_eq)
  ultimately have "\<exists>n' s'. run_loop 5 env_stop_at_3 0 example_gateway = Some (n', s')"
    using run_loop_stops [of env_stop_at_3 3 example_gateway 5 0] by blast
  then obtain n' s' where rl: "run_loop 5 env_stop_at_3 0 example_gateway = Some (n', s')"
    by blast
  with u have "sampling_interval s' = sampling_interval example_gateway
       \<and> wait_timeouts (trace s')
           = wait_timeouts (trace example_gateway) @ replicate (n' - 0) (sampling_interval example_gateway)"
    by blast
  with rl have w4: "\<exists>n' s'. run_loop 5 env_stop_at_3 0 example_gateway = Some (n', s')
         \<and> sampling_interval s' = 7 / 2
         \<and> wait_timeouts (trace s') = replicate n' (7 / 2)"
    by (simp add: si)
  from r si(1) b gen_fault w1 w3 w4 show ?thesis by blast
qed

theorem empty_payload_not_published_witness:
  "no_sensors_configured idle_gateway \<and> items (local_buffer idle_gateway) = []
   \<and> (\<forall>ty n gw ed. \<exists>d. generate_data env_kafka_down ty n [] gw ed = Inr d \<and> readings_of d = [])
   \<and> (\<exists>p. generate_gateway_payload env_kafka_down 10 idle_gateway = Inr p \<and> sensors p = []
        \<and> publish_step env_kafka_down p idle_gateway = idle_gateway\<lparr>trace := [Skipped]\<rparr>)
   \<and> publish_calls (loop_body env_kafka_down 10 idle_gateway) = 0
   \<and> publish_calls (snd (run_prefix 25 env_kafka_down 0 idle_gateway)) = 0"
proof -
  note t = empty_payload_not_published [of env_kafka_down 10 idle_gateway]
  have idle: "idle_gateway = \<lparr>district_id = ''D1'', gateway_id = ''GW-E-00001'',
       gateway_name = ''Gateway at E-00001'', location = (42, 13),
       sensors_config = [],
       sensors_edge_id = ''E-00001'',
       local_buffer = \<lparr>maxlen = 1000, items = []\<rparr>,
       sampling_interval = 7 / 2, publish_calls = 0, polls = 0, trace = []\<rparr>"
    by (simp add: idle_gateway_def EdgeManager_init_def example_config_def uniform_def half_stream_def)
  have a: "no_sensors_configured idle_gateway" "items (local_buffer idle_gateway) = []"
    by (simp_all add: idle no_sensors_configured_def dict_get_def)
  have q: "\<forall>ty n gw ed. \<exists>d. generate_data env_kafka_down ty n [] gw ed = Inr d \<and> readings_of d = []"
    by (simp add: env_kafka_down_def echo_simulators_def readings_of_def)
  from quiet_payload [OF a(1) q, of 10] obtain p where
    p: "generate_gateway_payload env_kafka_down 10 idle_gateway = Inr p" "sensors p = []"
    by blast
  with t have "publish_step env_kafka_down p idle_gateway
      = idle_gateway\<lparr>trace := trace idle_gateway @ [Skipped]\<rparr>"
    by blast
  then have ps: "publish_step env_kafka_down p idle_gateway = idle_gateway\<lparr>trace := [Skipped]\<rparr>"
    by (simp add: idle)
  from t p a(2) have "publish_calls (loop_body env_kafka_down 10 idle_gateway) = publish_calls idle_gateway"
    by blast
  then have lb: "publish_calls (loop_body env_kafka_down 10 idle_gateway) = 0"
    by (simp add: idle)
  from t a q have "publish_calls (snd (run_prefix 25 env_kafka_down 0 idle_gateway)) = publish_calls idle_gateway"
    by blast
  then have rp: "publish_calls (snd (run_prefix 25 env_kafka_down 0 idle_gateway)) = 0"
    by (simp add: idle)
  from p ps have "\<exists>p. generate_gateway_payload env_kafka_down 10 idle_gateway = Inr p \<and> sensors p = []
        \<and> publish_step env_kafka_down p idle_gateway = idle_gateway\<lparr>trace := [Skipped]\<rparr>"
    by blast
  with a q lb rp show ?thesis by blast
qed


end
